theory Spec2Isabelle
  imports Main
begin

section \<open>JavaScript values as the resolvers see them\<close>

text \<open>
  The TypeScript types of the source are erased at run time: what a resolver reads from
  an upstream body is whatever JSON the upstream sent. A value is therefore a JSON term,
  and \<open>undefined\<close> (the result of reading a property that is not there) is \<open>None\<close>.
  Numbers are modelled as integers (every number the resolvers inspect is a flag, a
  count, an identifier or an offset); fractions and NaN have no representation.
  Strings are lists of bytes, text beyond ASCII being in UTF-8.
  An object is the list of its own properties in order, with distinct keys.
\<close>

datatype json =
    JNull
  | JBool bool
  | JNum int
  | JStr string
  | JArr "json list"
  | JObj "(string \<times> json) list"

type_synonym jsval = "json option"

text \<open>What a \<open>try\<close> block can catch: the TypeError of the language itself (reading a
  property of \<open>undefined\<close> or \<open>null\<close>, calling something that is not a function),
  or whatever an outbound call or a body parse throws.\<close>

datatype exn = TypeError | Thrown string

definition bind_exn :: "exn + 'a \<Rightarrow> ('a \<Rightarrow> exn + 'b) \<Rightarrow> exn + 'b" where
  "bind_exn m f = (case m of Inl e \<Rightarrow> Inl e | Inr x \<Rightarrow> f x)"

text \<open>\<open>!v\<close> is \<open>\<not> truthy v\<close>.\<close>

fun truthy :: "jsval \<Rightarrow> bool" where
  "truthy None = False"
| "truthy (Some JNull) = False"
| "truthy (Some (JBool b)) = b"
| "truthy (Some (JNum n)) = (n \<noteq> 0)"
| "truthy (Some (JStr s)) = (s \<noteq> [])"
| "truthy (Some (JArr xs)) = True"
| "truthy (Some (JObj kvs)) = True"

text \<open>\<open>v.k\<close>: a TypeError on \<open>undefined\<close> and \<open>null\<close>, the own property of an
  object, \<open>undefined\<close> where the key is missing and on every other value. (The
  resolvers read no inherited property such as \<open>length\<close> or \<open>constructor\<close> from an
  upstream value.)\<close>

fun get_prop :: "jsval \<Rightarrow> string \<Rightarrow> exn + jsval" where
  "get_prop None k = Inl TypeError"
| "get_prop (Some JNull) k = Inl TypeError"
| "get_prop (Some (JObj kvs)) k = Inr (map_of kvs k)"
| "get_prop (Some (JBool b)) k = Inr None"
| "get_prop (Some (JNum n)) k = Inr None"
| "get_prop (Some (JStr s)) k = Inr None"
| "get_prop (Some (JArr xs)) k = Inr None"

text \<open>\<open>v[0]\<close>: the first element of an array (\<open>undefined\<close> when it is empty), the
  first character of a string, the property \<open>"0"\<close> of an object.\<close>

fun index0 :: "jsval \<Rightarrow> exn + jsval" where
  "index0 None = Inl TypeError"
| "index0 (Some JNull) = Inl TypeError"
| "index0 (Some (JArr xs)) = Inr (case xs of [] \<Rightarrow> None | x # _ \<Rightarrow> Some x)"
| "index0 (Some (JStr s)) = Inr (case s of [] \<Rightarrow> None | c # _ \<Rightarrow> Some (JStr [c]))"
| "index0 (Some (JObj kvs)) = Inr (map_of kvs ''0'')"
| "index0 (Some (JBool b)) = Inr None"
| "index0 (Some (JNum n)) = Inr None"

text \<open>\<open>v ?? d\<close>.\<close>

fun nullish :: "jsval \<Rightarrow> json \<Rightarrow> json" where
  "nullish None d = d"
| "nullish (Some JNull) d = d"
| "nullish (Some v) d = v"

text \<open>An object literal \<open>{k1: v1, ...}\<close> as it reaches the response: a property whose
  value is \<open>undefined\<close> is left out by JSON serialisation, the only use the resolvers
  make of the objects they build.\<close>

fun obj_fields :: "(string \<times> jsval) list \<Rightarrow> (string \<times> json) list" where
  "obj_fields [] = []"
| "obj_fields ((k, None) # kvs) = obj_fields kvs"
| "obj_fields ((k, Some v) # kvs) = (k, v) # obj_fields kvs"

definition obj :: "(string \<times> jsval) list \<Rightarrow> json" where
  "obj kvs = JObj (obj_fields kvs)"

text \<open>\<open>xs.map(f)\<close> and \<open>xs.forEach(f)\<close> with a callback that may throw: the first
  exception ends the traversal. On anything but an array the method is missing, a
  TypeError.\<close>

fun map_exn :: "('a \<Rightarrow> exn + 'b) \<Rightarrow> 'a list \<Rightarrow> exn + 'b list" where
  "map_exn f [] = Inr []"
| "map_exn f (x # xs) =
     (case f x of Inl e \<Rightarrow> Inl e
      | Inr y \<Rightarrow> (case map_exn f xs of Inl e \<Rightarrow> Inl e | Inr ys \<Rightarrow> Inr (y # ys)))"

fun forEach_exn :: "('a \<Rightarrow> 's \<Rightarrow> exn + 's) \<Rightarrow> 'a list \<Rightarrow> 's \<Rightarrow> exn + 's" where
  "forEach_exn f [] s = Inr s"
| "forEach_exn f (x # xs) s =
     (case f x s of Inl e \<Rightarrow> Inl e | Inr s' \<Rightarrow> forEach_exn f xs s')"

fun array_map :: "(jsval \<Rightarrow> exn + 'b) \<Rightarrow> jsval \<Rightarrow> exn + 'b list" where
  "array_map f (Some (JArr xs)) = map_exn (\<lambda>x. f (Some x)) xs"
| "array_map f v = Inl TypeError"

fun array_forEach :: "(jsval \<Rightarrow> 's \<Rightarrow> exn + 's) \<Rightarrow> jsval \<Rightarrow> 's \<Rightarrow> exn + 's" where
  "array_forEach f (Some (JArr xs)) s = forEach_exn (\<lambda>x. f (Some x)) xs s"
| "array_forEach f v s = Inl TypeError"

subsection \<open>Conversion to string\<close>

text \<open>Template literals and \<open>String(v)\<close> convert a value to a string. An array prints
  its elements joined by commas, \<open>null\<close> elements as the empty string; an object prints
  as \<open>[object Object]\<close>. A number prints as \<open>Number.prototype.toString\<close> prints the
  double nearest to it: the shortest digits that read back as that double, in plain
  notation up to 21 digits and with an exponent beyond, and \<open>Infinity\<close> from
  \<open>2 ^ 1024\<close> on. Below \<open>2 ^ 53\<close> that is the decimal notation of the integer.\<close>

fun string_of_nat :: "nat \<Rightarrow> string" where
  "string_of_nat n =
     (if n < 10 then [char_of (48 + n)]
      else string_of_nat (n div 10) @ [char_of (48 + n mod 10)])"

declare string_of_nat.simps [simp del]

text \<open>The number of binary digits of a number, and of decimal digits.\<close>

fun bit_length :: "nat \<Rightarrow> nat" where
  "bit_length n = (if n = 0 then 0 else Suc (bit_length (n div 2)))"

declare bit_length.simps [simp del]

fun digit_count :: "nat \<Rightarrow> nat" where
  "digit_count n = (if n < 10 then 1 else Suc (digit_count (n div 10)))"

declare digit_count.simps [simp del]

text \<open>The double nearest to a number of at least 54 bits, ties to the even significand:
  the significand (53 bits, or \<open>2 ^ 53\<close> after a carry) and the binary exponent.\<close>

definition nearest_double :: "nat \<Rightarrow> nat \<times> nat" where
  "nearest_double m =
     (let e = bit_length m - 53;
          q = m div 2 ^ e;
          r = m mod 2 ^ e;
          h = 2 ^ (e - 1)
      in (if h < r \<or> (r = h \<and> odd q) then Suc q else q, e))"

text \<open>Whether the number \<open>v\<close> rounds to the double \<open>f * 2 ^ e\<close> (a significand of
  53 bits, \<open>1 \<le> e\<close>): it lies between the midpoints to the neighbouring doubles, the
  midpoints included when the significand is even. The double below a power of two
  is half as far away. The bounds are doubled to stay in the integers.\<close>

definition rounds_to :: "nat \<Rightarrow> nat \<Rightarrow> nat \<Rightarrow> bool" where
  "rounds_to f e v =
     (let d = f * 2 ^ e;
          below = (if f = 2 ^ 52 then 2 ^ (e - 1) else 2 ^ e);
          lo2 = 2 * d - below;
          hi2 = 2 * d + 2 ^ e
      in if even f then lo2 \<le> 2 * v \<and> 2 * v \<le> hi2 else lo2 < 2 * v \<and> 2 * v < hi2)"

text \<open>The numbers of \<open>k\<close> significant digits next to \<open>d\<close> (which has \<open>n\<close> digits,
  \<open>k \<le> n\<close>), as digits and a count of zeros that follow: \<open>d\<close> cut to \<open>k\<close> digits,
  rounded down and rounded up.\<close>

definition candidates :: "nat \<Rightarrow> nat \<Rightarrow> nat \<Rightarrow> (nat \<times> nat) list" where
  "candidates d n k =
     (let t = n - k; s = d div 10 ^ t
      in [(s, t), (if Suc s = 10 ^ k then (1, n) else (Suc s, t))])"

definition distance :: "nat \<Rightarrow> nat \<times> nat \<Rightarrow> nat" where
  "distance d c = (let v = fst c * 10 ^ snd c in if v \<le> d then d - v else v - d)"

text \<open>Of one or two candidates, the one nearest to \<open>d\<close> (the even one of two equally
  near).\<close>

definition nearest :: "nat \<Rightarrow> (nat \<times> nat) list \<Rightarrow> (nat \<times> nat) option" where
  "nearest d cs =
     (case cs of
        [] \<Rightarrow> None
      | [c] \<Rightarrow> Some c
      | c1 # c2 # _ \<Rightarrow>
          Some (if distance d c1 < distance d c2 then c1
                else if distance d c2 < distance d c1 then c2
                else if even (fst c1) then c1 else c2))"

text \<open>The shortest digits of the double \<open>f * 2 ^ e\<close>: the least number of significant
  digits, from \<open>k\<close> on, for which a candidate rounds to the double. With all \<open>n\<close>
  digits the double itself does.\<close>

function shortest :: "nat \<Rightarrow> nat \<Rightarrow> nat \<Rightarrow> nat \<Rightarrow> nat \<times> nat" where
  "shortest f e n k =
     (let d = f * 2 ^ e in
      if n \<le> k then (d, 0)
      else (case nearest d (filter (\<lambda>c. 0 < fst c \<and> rounds_to f e (fst c * 10 ^ snd c))
                               (candidates d n k)) of
              Some c \<Rightarrow> c
            | None \<Rightarrow> shortest f e n (Suc k)))"
  by pat_completeness auto
termination
  by (relation "measure (\<lambda>(f, e, n, k). n - k)") auto

declare shortest.simps [simp del]

text \<open>Digits followed by zeros, as \<open>Number.prototype.toString\<close> writes them: in full up
  to 21 digits, and as \<open>d.ddde+x\<close> beyond.\<close>

definition decimal_notation :: "nat \<times> nat \<Rightarrow> string" where
  "decimal_notation c =
     (let digits = string_of_nat (fst c);
          n = length digits + snd c
      in if n \<le> 21 then digits @ replicate (snd c) CHR ''0''
         else (case digits of
                 [] \<Rightarrow> []
               | [x] \<Rightarrow> [x]
               | x # xs \<Rightarrow> x # CHR ''.'' # xs) @ ''e+'' @ string_of_nat (n - 1))"

definition number_to_string :: "nat \<Rightarrow> string" where
  "number_to_string m =
     (if m < 2 ^ 53 then string_of_nat m
      else let (f, e) = nearest_double m in
           if 2 ^ 1024 \<le> f * 2 ^ e then ''Infinity''
           else let (f', e') = (if f = 2 ^ 53 then (2 ^ 52, Suc e) else (f, e))
                in decimal_notation (shortest f' e' (digit_count (f' * 2 ^ e')) 1))"

definition string_of_int :: "int \<Rightarrow> string" where
  "string_of_int i =
     (if i < 0 then CHR ''-'' # number_to_string (nat (- i)) else number_to_string (nat i))"

fun join_comma :: "string list \<Rightarrow> string" where
  "join_comma [] = []"
| "join_comma [s] = s"
| "join_comma (s # t # ss) = s @ '','' @ join_comma (t # ss)"

fun json_to_string :: "json \<Rightarrow> string" where
  "json_to_string JNull = ''null''"
| "json_to_string (JBool b) = (if b then ''true'' else ''false'')"
| "json_to_string (JNum n) = string_of_int n"
| "json_to_string (JStr s) = s"
| "json_to_string (JArr xs) =
     join_comma (map (\<lambda>x. if x = JNull then [] else json_to_string x) xs)"
| "json_to_string (JObj kvs) = ''[object Object]''"

definition to_string :: "jsval \<Rightarrow> string" where
  "to_string v = (case v of None \<Rightarrow> ''undefined'' | Some j \<Rightarrow> json_to_string j)"

subsection \<open>Trimming\<close>

text \<open>A string is a list of bytes; text beyond ASCII is in UTF-8. These are the white
  space and line terminator characters of ECMAScript, each in its UTF-8 encoding: the
  six ASCII ones (U+0009 to U+000D, U+0020), U+00A0, U+1680, U+2000 to U+200A, U+2028,
  U+2029, U+202F, U+205F, U+3000 and U+FEFF.\<close>

definition white_space :: "string list" where
  "white_space =
     [[CHR 0x09], [CHR 0x0A], [CHR 0x0B], [CHR 0x0C], [CHR 0x0D], [CHR 0x20],
      [CHR 0xC2, CHR 0xA0],
      [CHR 0xE1, CHR 0x9A, CHR 0x80],
      [CHR 0xE2, CHR 0x80, CHR 0x80], [CHR 0xE2, CHR 0x80, CHR 0x81],
      [CHR 0xE2, CHR 0x80, CHR 0x82], [CHR 0xE2, CHR 0x80, CHR 0x83],
      [CHR 0xE2, CHR 0x80, CHR 0x84], [CHR 0xE2, CHR 0x80, CHR 0x85],
      [CHR 0xE2, CHR 0x80, CHR 0x86], [CHR 0xE2, CHR 0x80, CHR 0x87],
      [CHR 0xE2, CHR 0x80, CHR 0x88], [CHR 0xE2, CHR 0x80, CHR 0x89],
      [CHR 0xE2, CHR 0x80, CHR 0x8A],
      [CHR 0xE2, CHR 0x80, CHR 0xA8], [CHR 0xE2, CHR 0x80, CHR 0xA9],
      [CHR 0xE2, CHR 0x80, CHR 0xAF],
      [CHR 0xE2, CHR 0x81, CHR 0x9F],
      [CHR 0xE3, CHR 0x80, CHR 0x80],
      [CHR 0xEF, CHR 0xBB, CHR 0xBF]]"

text \<open>The number of bytes of the white space character a string starts with, 0 when it
  starts with none. A byte \<open>0xA0\<close> at the very start continues no character: it is
  U+00A0 written as one byte, and counts as well.\<close>

definition leading_space :: "string \<Rightarrow> nat" where
  "leading_space s =
     (case find (\<lambda>w. take (length w) s = w) white_space of
        Some w \<Rightarrow> length w
      | None \<Rightarrow> (case s of [] \<Rightarrow> 0 | c # cs \<Rightarrow> if c = CHR 0xA0 then 1 else 0))"

text \<open>The same for the character a string ends with, on the reversed string. A last
  byte \<open>0xA0\<close> counts when no byte beyond ASCII precedes it.\<close>

definition trailing_space :: "string \<Rightarrow> nat" where
  "trailing_space r =
     (case find (\<lambda>w. take (length w) r = rev w) white_space of
        Some w \<Rightarrow> length w
      | None \<Rightarrow>
          (case r of
             [] \<Rightarrow> 0
           | c # cs \<Rightarrow>
               if c = CHR 0xA0 \<and> (case cs of [] \<Rightarrow> True | p # ps \<Rightarrow> (of_char p :: nat) < 128)
               then 1 else 0))"

text \<open>Dropping characters from the front for as long as \<open>f\<close> finds one.\<close>

function strip :: "(string \<Rightarrow> nat) \<Rightarrow> string \<Rightarrow> string" where
  "strip f s = (if f s = 0 \<or> s = [] then s else strip f (drop (f s) s))"
  by pat_completeness auto
termination
  by (relation "measure (\<lambda>(f, s). length s)") auto

declare strip.simps [simp del]

text \<open>\<open>s.trim()\<close>.\<close>

definition trim :: "string \<Rightarrow> string" where
  "trim s = rev (strip trailing_space (rev (strip leading_space s)))"

section \<open>Requests, responses and the upstream services\<close>

text \<open>\<open>req.query\<close>: the parsed query string. A parameter that is absent reads as
  \<open>undefined\<close>.\<close>

type_synonym query = "(string \<times> json) list"

text \<open>What the handler sends: \<open>res.status(n).send(text)\<close> or \<open>res.status(n).json(v)\<close>
  (status 200 when \<open>res.json\<close> is called alone). \<open>Json None\<close> is the empty body that
  serialising \<open>undefined\<close> leaves.\<close>

datatype body = Text string | Json jsval

record response =
  status :: nat
  body :: body

definition send :: "nat \<Rightarrow> string \<Rightarrow> response" where
  "send n msg = \<lparr>status = n, body = Text msg\<rparr>"

definition send_json :: "nat \<Rightarrow> jsval \<Rightarrow> response" where
  "send_json n v = \<lparr>status = n, body = Json v\<rparr>"

text \<open>What \<open>fetch\<close> resolves to: the HTTP status and the outcome of \<open>response.json()\<close>
  (which throws on a malformed body). \<open>response.ok\<close> is a status in the range 200 to
  299.\<close>

record fetch_response =
  resp_status :: nat
  resp_json :: "exn + jsval"

definition ok :: "fetch_response \<Rightarrow> bool" where
  "ok r = (200 \<le> resp_status r \<and> resp_status r \<le> 299)"

text \<open>The outbound calls a handler makes, in order: the log a test double would keep.\<close>

datatype call =
    Fetch string "(string \<times> string) list"
  | ExchangeNpssoForAccessCode string
  | ExchangeAccessCodeForAuthTokens jsval
  | MakeUniversalSearch jsval jsval string
  | GetUserPlayedGames jsval jsval int json

text \<open>The environment of one request: the injected secrets, and the upstream services.
  Every service takes the number of outbound calls the request has made so far, so that
  an upstream may answer the same request differently each time, and either throws or
  returns.\<close>

record env =
  RAWG_API :: string
  STEAM_API :: string
  PS_API :: string
  XBOX_API :: string
  fetch :: "nat \<Rightarrow> string \<Rightarrow> (string \<times> string) list \<Rightarrow> exn + fetch_response"
  exchangeNpssoForAccessCode :: "nat \<Rightarrow> string \<Rightarrow> exn + jsval"
  exchangeAccessCodeForAuthTokens :: "nat \<Rightarrow> jsval \<Rightarrow> exn + jsval"
  makeUniversalSearch :: "nat \<Rightarrow> jsval \<Rightarrow> jsval \<Rightarrow> string \<Rightarrow> exn + jsval"
  getUserPlayedGames :: "nat \<Rightarrow> jsval \<Rightarrow> jsval \<Rightarrow> int \<Rightarrow> json \<Rightarrow> exn + jsval"

section \<open>fetchSuggestions\<close>


section \<open>fetchSteamGames\<close>

text \<open>The callback of \<open>gamesData.response.games.map\<close>.\<close>

definition simplified_game :: "jsval \<Rightarrow> exn + json" where
  "simplified_game game =
     bind_exn (get_prop game ''appid'') (\<lambda>appid.
     bind_exn (get_prop game ''name'') (\<lambda>name.
       Inr (obj [(''appid'', appid), (''name'', name)])))"

definition steam_vanity_url :: "string \<Rightarrow> jsval \<Rightarrow> string" where
  "steam_vanity_url steamApiKey steamVanityName =
     ''https://api.steampowered.com/ISteamUser/ResolveVanityURL/v1/?key='' @ steamApiKey
       @ ''&vanityurl='' @ to_string steamVanityName"

definition steam_games_url :: "string \<Rightarrow> jsval \<Rightarrow> string" where
  "steam_games_url steamApiKey steamID =
     ''https://api.steampowered.com/IPlayerService/GetOwnedGames/v1/?key='' @ steamApiKey
       @ ''&steamid='' @ to_string steamID @ ''&include_appinfo=true&format=json''"

text \<open>The handler of \<open>src/unnamed/part_000\<close>.\<close>

definition fetchSteamGames :: "env \<Rightarrow> query \<Rightarrow> response \<times> call list" where
  "fetchSteamGames env q =
     (let steamVanityName = map_of q ''vanityurl'' in
      if \<not> truthy steamVanityName then (send 400 ''Missing Steam vanity URL'', [])
      else
        let steamApiKey = STEAM_API env;
            url1 = steam_vanity_url steamApiKey steamVanityName;
            calls1 = [Fetch url1 []];
            failed1 = (send 500 ''Failed to fetch Steam games'', calls1)
        in case fetch env 0 url1 [] of
             Inl e \<Rightarrow> failed1
           | Inr response \<Rightarrow>
               if \<not> ok response
               then (send (resp_status response) ''Failed to fetch Steam user'', calls1)
               else (case resp_json response of
                  Inl e \<Rightarrow> failed1
                | Inr data \<Rightarrow>
                  (case bind_exn (get_prop data ''response'') (\<lambda>r. get_prop r ''success'') of
                     Inl e \<Rightarrow> failed1
                   | Inr success \<Rightarrow>
                     if success \<noteq> Some (JNum 1) then (send 404 ''Steam user not found'', calls1)
                     else
                      (case bind_exn (get_prop data ''response'') (\<lambda>r. get_prop r ''steamid'') of
                         Inl e \<Rightarrow> failed1
                       | Inr steamID \<Rightarrow>
                          let url2 = steam_games_url steamApiKey steamID;
                              calls2 = calls1 @ [Fetch url2 []];
                              failed2 = (send 500 ''Failed to fetch Steam games'', calls2)
                          in case fetch env 1 url2 [] of
                               Inl e \<Rightarrow> failed2
                             | Inr gamesResponse \<Rightarrow>
                                 if \<not> ok gamesResponse
                                 then (send (resp_status gamesResponse) ''Failed to fetch Steam games'', calls2)
                                 else (case resp_json gamesResponse of
                                    Inl e \<Rightarrow> failed2
                                  | Inr gamesData \<Rightarrow>
                                    (case bind_exn (get_prop gamesData ''response'') (\<lambda>r.
                                          bind_exn (get_prop r ''games'') (array_map simplified_game)) of
                                       Inl e \<Rightarrow> failed2
                                     | Inr simplifiedGames \<Rightarrow>
                                         (send_json 200 (Some (obj [(''games'', Some (JArr simplifiedGames))])),
                                          calls2)))))))"

text \<open>The handler of \<open>src/functions/src/index.ts\<close>: the same two hops, and the upstream
  \<open>response\<close> object sent back as it came.\<close>

definition fetchSteamGames_index :: "env \<Rightarrow> query \<Rightarrow> response \<times> call list" where
  "fetchSteamGames_index env q =
     (let steamVanityName = map_of q ''vanityurl'' in
      if \<not> truthy steamVanityName then (send 400 ''Missing Steam vanity URL'', [])
      else
        let steamApiKey = STEAM_API env;
            url1 = steam_vanity_url steamApiKey steamVanityName;
            calls1 = [Fetch url1 []];
            failed1 = (send 500 ''Failed to fetch Steam games'', calls1)
        in case fetch env 0 url1 [] of
             Inl e \<Rightarrow> failed1
           | Inr response \<Rightarrow>
               if \<not> ok response
               then (send (resp_status response) ''Failed to fetch Steam user'', calls1)
               else (case resp_json response of
                  Inl e \<Rightarrow> failed1
                | Inr data \<Rightarrow>
                  (case bind_exn (get_prop data ''response'') (\<lambda>r. get_prop r ''success'') of
                     Inl e \<Rightarrow> failed1
                   | Inr success \<Rightarrow>
                     if success \<noteq> Some (JNum 1) then (send 404 ''Steam user not found'', calls1)
                     else
                      (case bind_exn (get_prop data ''response'') (\<lambda>r. get_prop r ''steamid'') of
                         Inl e \<Rightarrow> failed1
                       | Inr steamID \<Rightarrow>
                          let url2 = steam_games_url steamApiKey steamID;
                              calls2 = calls1 @ [Fetch url2 []];
                              failed2 = (send 500 ''Failed to fetch Steam games'', calls2)
                          in case fetch env 1 url2 [] of
                               Inl e \<Rightarrow> failed2
                             | Inr gamesResponse \<Rightarrow>
                                 if \<not> ok gamesResponse
                                 then (send (resp_status gamesResponse) ''Failed to fetch Steam games'', calls2)
                                 else (case resp_json gamesResponse of
                                    Inl e \<Rightarrow> failed2
                                  | Inr gamesData \<Rightarrow>
                                    (case get_prop gamesData ''response'' of
                                       Inl e \<Rightarrow> failed2
                                     | Inr r \<Rightarrow> (send_json 200 r, calls2)))))))"

section \<open>fetchPSGames\<close>

text \<open>\<open>accountSearch.domainResponses[0].results[0].socialMetadata.accountId\<close>.\<close>

definition first_accountId :: "jsval \<Rightarrow> exn + jsval" where
  "first_accountId accountSearch =
     bind_exn (get_prop accountSearch ''domainResponses'') (\<lambda>domainResponses.
     bind_exn (index0 domainResponses) (\<lambda>domainResponse.
     bind_exn (get_prop domainResponse ''results'') (\<lambda>results.
     bind_exn (index0 results) (\<lambda>result.
     bind_exn (get_prop result ''socialMetadata'') (\<lambda>socialMetadata.
       get_prop socialMetadata ''accountId'')))))"

text \<open>The callback of \<open>playedGames.titles.forEach\<close>, on the list \<open>psGames\<close>.\<close>

definition push_title :: "jsval \<Rightarrow> json list \<Rightarrow> exn + json list" where
  "push_title game psGames =
     bind_exn (get_prop game ''category'') (\<lambda>category.
       if category = Some (JStr ''ps4_game'') \<or> category = Some (JStr ''ps5_native_game'')
       then
         bind_exn (get_prop game ''titleId'') (\<lambda>titleId.
         bind_exn (get_prop game ''name'') (\<lambda>name.
         bind_exn (get_prop game ''imageUrl'') (\<lambda>imageUrl.
           Inr (psGames @ [obj [(''appid'', titleId), (''name'', name), (''logo'', imageUrl)]]))))
       else Inr psGames)"

text \<open>The variables of the draining loop, and the log of outbound calls.\<close>

record loop_state =
  psGames :: "json list"
  offset :: json
  hasNextPage :: bool
  calls :: "call list"

text \<open>One run of the loop body. The first component is the exception that left the
  body, if one did.\<close>

definition iteration :: "env \<Rightarrow> jsval \<Rightarrow> jsval \<Rightarrow> loop_state \<Rightarrow> exn option \<times> loop_state" where
  "iteration env authorization accountId s =
     (let s1 = s\<lparr>calls := calls s @ [GetUserPlayedGames authorization accountId 100 (offset s)]\<rparr>
      in case getUserPlayedGames env (length (calls s)) authorization accountId 100 (offset s) of
           Inl e \<Rightarrow> (Some e, s1)
         | Inr playedGames \<Rightarrow>
            (case bind_exn (get_prop playedGames ''titles'') (\<lambda>titles.
                    array_forEach push_title titles (psGames s)) of
               Inl e \<Rightarrow> (Some e, s1)
             | Inr psGames' \<Rightarrow>
                (case get_prop playedGames ''nextOffset'' of
                   Inl e \<Rightarrow> (Some e, s1)
                 | Inr nextOffset \<Rightarrow>
                     (None,
                      s1\<lparr>psGames := psGames',
                         hasNextPage :=
                           (if \<not> truthy nextOffset \<or> nextOffset = Some (JNum 0) then False
                            else hasNextPage s),
                         offset := nullish nextOffset (JNum 0)\<rparr>))))"

text \<open>\<open>while (hasNextPage) { ... }\<close>. The loop has no bound of its own: where it does
  not end, the result is \<open>None\<close>.\<close>

partial_function (option) while_hasNextPage ::
  "env \<Rightarrow> jsval \<Rightarrow> jsval \<Rightarrow> loop_state \<Rightarrow> (exn option \<times> loop_state) option" where
  "while_hasNextPage env authorization accountId s =
     (if hasNextPage s
      then (case iteration env authorization accountId s of
              (Some e, s') \<Rightarrow> Some (Some e, s')
            | (None, s') \<Rightarrow> while_hasNextPage env authorization accountId s')
      else Some (None, s))"

text \<open>What the handler sends once the loop is left.\<close>

definition ps_respond :: "exn option \<times> loop_state \<Rightarrow> response \<times> call list" where
  "ps_respond r =
     (case r of
        (Some e, s) \<Rightarrow> (send 500 ''Failed to fetch PS games'', calls s)
      | (None, s) \<Rightarrow>
          (send_json 200 (Some (obj [(''total'', Some (JNum (int (length (psGames s))))),
                                      (''games'', Some (JArr (psGames s)))])),
           calls s))"

definition fetchPSGames :: "env \<Rightarrow> query \<Rightarrow> (response \<times> call list) option" where
  "fetchPSGames env q =
     (let psnUsername = map_of q ''username'' in
      if \<not> truthy psnUsername then Some (send 400 ''Missing PSN username'', [])
      else
        let myNpsso = PS_API env;
            calls1 = [ExchangeNpssoForAccessCode myNpsso]
        in case exchangeNpssoForAccessCode env 0 myNpsso of
             Inl e \<Rightarrow> Some (send 500 ''Failed to fetch PS games'', calls1)
           | Inr accessCode \<Rightarrow>
              let calls2 = calls1 @ [ExchangeAccessCodeForAuthTokens accessCode]
              in case exchangeAccessCodeForAuthTokens env 1 accessCode of
                   Inl e \<Rightarrow> Some (send 500 ''Failed to fetch PS games'', calls2)
                 | Inr authorization \<Rightarrow>
                    let calls3 = calls2 @ [MakeUniversalSearch authorization psnUsername ''SocialAllAccounts'']
                    in case bind_exn (makeUniversalSearch env 2 authorization psnUsername ''SocialAllAccounts'')
                              first_accountId of
                         Inl e \<Rightarrow> Some (send 500 ''Failed to fetch PS games'', calls3)
                       | Inr accountId \<Rightarrow>
                           map_option ps_respond
                             (while_hasNextPage env authorization accountId
                                \<lparr>psGames = [], offset = JNum 0, hasNextPage = True, calls = calls3\<rparr>))"

section \<open>fetchXboxGames\<close>

text \<open>The callback of \<open>titles.map\<close>.\<close>

definition xbox_game :: "jsval \<Rightarrow> exn + json" where
  "xbox_game game =
     bind_exn (get_prop game ''titleId'') (\<lambda>titleId.
     bind_exn (get_prop game ''name'') (\<lambda>name.
     bind_exn (get_prop game ''displayImage'') (\<lambda>displayImage.
       Inr (obj [(''appid'', titleId), (''name'', name), (''logo'', displayImage)]))))"

text \<open>\<open>titles.length\<close>.\<close>

fun js_length :: "jsval \<Rightarrow> jsval" where
  "js_length (Some (JArr xs)) = Some (JNum (int (length xs)))"
| "js_length (Some (JStr s)) = Some (JNum (int (length s)))"
| "js_length v = None"

definition fetchXboxGames :: "env \<Rightarrow> query \<Rightarrow> response \<times> call list" where
  "fetchXboxGames env q =
     (let xboxKey = XBOX_API env;
          username = map_of q ''username'';
          url1 = ''https://xbl.io/api/v2/search/'' @ to_string username;
          headers1 = [(''X-Authorization'', xboxKey)];
          calls1 = [Fetch url1 headers1];
          failed1 = (send 500 ''Failed to fetch Xbox games'', calls1)
      in case fetch env 0 url1 headers1 of
           Inl e \<Rightarrow> failed1
         | Inr usernameResp \<Rightarrow>
            if \<not> ok usernameResp
            then (send (resp_status usernameResp) ''Failed to fetch Xbox XUID'', calls1)
            else (case resp_json usernameResp of
               Inl e \<Rightarrow> failed1
             | Inr xuidData \<Rightarrow>
               (case bind_exn (get_prop xuidData ''people'') (\<lambda>people.
                     bind_exn (index0 people) (\<lambda>person. get_prop person ''xuid'')) of
                  Inl e \<Rightarrow> failed1
                | Inr xuid \<Rightarrow>
                   let numericId = trim (to_string xuid) in
                   if numericId = [] then (send 404 ''Xbox user not found'', calls1)
                   else
                     let url = ''https://xbl.io/api/v2/player/titleHistory/'' @ numericId;
                         headers2 = [(''X-Authorization'', xboxKey), (''Accept-Language'', ''en-US'')];
                         calls2 = calls1 @ [Fetch url headers2];
                         failed2 = (send 500 ''Failed to fetch Xbox games'', calls2)
                     in case fetch env 1 url headers2 of
                          Inl e \<Rightarrow> failed2
                        | Inr resp \<Rightarrow>
                           if \<not> ok resp
                           then (send (resp_status resp) ''Failed to fetch Xbox games, resp not ok'', calls2)
                           else (case resp_json resp of
                              Inl e \<Rightarrow> failed2
                            | Inr data \<Rightarrow>
                              (case get_prop data ''titles'' of
                                 Inl e \<Rightarrow> failed2
                               | Inr data_titles \<Rightarrow>
                                  let titles = (if truthy data_titles then data_titles else Some (JArr []))
                                  in case array_map xbox_game titles of
                                       Inl e \<Rightarrow> failed2
                                     | Inr gamesInfo \<Rightarrow>
                                         (send_json 200
                                            (Some (obj [(''games'', Some (JArr gamesInfo)),
                                                        (''total'', js_length titles)])),
                                          calls2))))))"

section \<open>Vocabulary of the specification\<close>

text \<open>The own property of a value that is known not to be \<open>null\<close>: what \<open>get_prop\<close>
  returns where it does not throw.\<close>

fun own_prop :: "json \<Rightarrow> string \<Rightarrow> jsval" where
  "own_prop (JObj kvs) k = map_of kvs k"
| "own_prop j k = None"

text \<open>An upstream game record cut down to \<open>{appid, name}\<close>.\<close>

definition appid_name :: "json \<Rightarrow> json" where
  "appid_name game = obj [(''appid'', own_prop game ''appid''), (''name'', own_prop game ''name'')]"

text \<open>The Platform-B vocabulary. A title is accepted when its category is one of the
  two native categories; an accepted title is normalised to \<open>{appid, name, logo}\<close>; the
  kept titles of a page are its accepted titles, normalised, in page order.\<close>

definition accepted :: "json \<Rightarrow> bool" where
  "accepted title =
     (own_prop title ''category'' = Some (JStr ''ps4_game'')
      \<or> own_prop title ''category'' = Some (JStr ''ps5_native_game''))"

definition normalized_title :: "json \<Rightarrow> json" where
  "normalized_title title =
     obj [(''appid'', own_prop title ''titleId''), (''name'', own_prop title ''name''),
          (''logo'', own_prop title ''imageUrl'')]"

text \<open>The titles of a page, and a page as its declared type describes it: a \<open>titles\<close>
  array of records.\<close>

definition page_titles :: "jsval \<Rightarrow> json list" where
  "page_titles page =
     (case get_prop page ''titles'' of Inr (Some (JArr titles)) \<Rightarrow> titles | _ \<Rightarrow> [])"

definition well_formed :: "jsval \<Rightarrow> bool" where
  "well_formed page =
     (case get_prop page ''titles'' of Inr (Some (JArr titles)) \<Rightarrow> JNull \<notin> set titles | _ \<Rightarrow> False)"

definition kept_titles :: "jsval \<Rightarrow> json list" where
  "kept_titles page = map normalized_title (filter accepted (page_titles page))"

text \<open>The \<open>nextOffset\<close> a page carries (\<open>undefined\<close> when it carries none).\<close>

definition next_offset :: "jsval \<Rightarrow> jsval" where
  "next_offset page = (case get_prop page ''nextOffset'' of Inr v \<Rightarrow> v | Inl e \<Rightarrow> None)"

text \<open>The paged endpoint returns the pages of a list, one per call: the first on the
  n-th outbound call of the request at the offset \<open>off\<close>, each later one on the next
  call, at the offset the handler derives from the page before.\<close>

fun serves :: "env \<Rightarrow> jsval \<Rightarrow> jsval \<Rightarrow> nat \<Rightarrow> json \<Rightarrow> jsval list \<Rightarrow> bool" where
  "serves env authorization accountId n off [] = True"
| "serves env authorization accountId n off (page # pages) =
     (getUserPlayedGames env n authorization accountId 100 off = Inr page
      \<and> serves env authorization accountId (Suc n) (nullish (next_offset page) (JNum 0)) pages)"

text \<open>A list of pages as a completed drain sees it: every page but the last carries a
  truthy \<open>nextOffset\<close>, the last one does not.\<close>

fun draining :: "jsval list \<Rightarrow> bool" where
  "draining [] = False"
| "draining [page] = (\<not> truthy (next_offset page))"
| "draining (page # pages) = (truthy (next_offset page) \<and> draining pages)"

text \<open>The shape the specification gives a normalised game: a non-empty \<open>appid\<close> (a
  string, or a number for the vanity-name provider), a non-empty \<open>name\<close>, and a \<open>logo\<close>
  that is absent or a non-empty string.\<close>

fun nonempty :: "jsval \<Rightarrow> bool" where
  "nonempty (Some (JStr s)) = (s \<noteq> [])"
| "nonempty (Some (JNum n)) = True"
| "nonempty v = False"

fun logo_ok :: "jsval \<Rightarrow> bool" where
  "logo_ok None = True"
| "logo_ok (Some (JStr s)) = (s \<noteq> [])"
| "logo_ok v = False"

definition shape_ok :: "json \<Rightarrow> bool" where
  "shape_ok game =
     (nonempty (own_prop game ''appid'') \<and> nonempty (own_prop game ''name'')
      \<and> logo_ok (own_prop game ''logo''))"

text \<open>The same conditions on an upstream record, whose identifier and image are stored
  under the provider's own keys.\<close>

definition record_ok :: "string \<Rightarrow> string \<Rightarrow> json \<Rightarrow> bool" where
  "record_ok idKey imageKey title =
     (nonempty (own_prop title idKey) \<and> nonempty (own_prop title ''name'')
      \<and> logo_ok (own_prop title imageKey))"

text \<open>The \<open>games\<close> list of a response body.\<close>

definition games_of :: "response \<Rightarrow> json list" where
  "games_of r =
     (case body r of
        Json (Some (JObj kvs)) \<Rightarrow> (case map_of kvs ''games'' of Some (JArr games) \<Rightarrow> games | _ \<Rightarrow> [])
      | _ \<Rightarrow> [])"

section \<open>Test doubles\<close>

text \<open>An environment whose \<open>fetch\<close> answers the n-th outbound call with \<open>responses n\<close>,
  whose token exchanges succeed, whose account search returns \<open>accountSearch\<close> and
  whose paged title endpoint answers the n-th outbound call with \<open>pages n\<close>.\<close>

definition stub_env :: "(nat \<Rightarrow> exn + fetch_response) \<Rightarrow> jsval \<Rightarrow> (nat \<Rightarrow> exn + jsval) \<Rightarrow> env" where
  "stub_env responses accountSearch pages =
     \<lparr>RAWG_API = ''rawg-key'', STEAM_API = ''steam-key'', PS_API = ''npsso'', XBOX_API = ''xbox-key'',
      fetch = (\<lambda>n url headers. responses n),
      exchangeNpssoForAccessCode = (\<lambda>n npsso. Inr (Some (JStr ''code''))),
      exchangeAccessCodeForAuthTokens = (\<lambda>n code. Inr (Some (JObj [(''accessToken'', JStr ''token'')]))),
      makeUniversalSearch = (\<lambda>n authorization name domain. Inr accountSearch),
      getUserPlayedGames = (\<lambda>n authorization accountId limit off. pages n)\<rparr>"

definition http_ok :: "json \<Rightarrow> exn + fetch_response" where
  "http_ok j = Inr \<lparr>resp_status = 200, resp_json = Inr (Some j)\<rparr>"



definition steam_vanity_found :: json where
  "steam_vanity_found =
     JObj [(''response'', JObj [(''steamid'', JStr ''76561198000000000''), (''success'', JNum 1)])]"


definition steam_owned_games :: json where
  "steam_owned_games = JObj [(''response'', JObj [(''game_count'', JNum 2),
     (''games'', JArr [JObj [(''appid'', JNum 10), (''name'', JStr ''Game A''), (''playtime_forever'', JNum 120)],
                       JObj [(''appid'', JNum 20), (''name'', JStr ''Game B''), (''img_icon_url'', JStr ''abc'')]])])]"

definition steam_stub :: env where
  "steam_stub = stub_env (\<lambda>n. if n = 0 then http_ok steam_vanity_found else http_ok steam_owned_games)
                  None (\<lambda>n. Inl (Thrown ''unused''))"





definition psn_search_two :: json where
  "psn_search_two = JObj [(''domainResponses'', JArr [JObj [(''results'', JArr
      [JObj [(''socialMetadata'', JObj [(''accountId'', JStr ''acc-1''), (''onlineId'', JStr ''player'')])],
       JObj [(''socialMetadata'', JObj [(''accountId'', JStr ''acc-2''), (''onlineId'', JStr ''player2'')])]])]])]"

definition psn_search_none :: json where
  "psn_search_none = JObj [(''domainResponses'', JArr [JObj [(''results'', JArr [])]])]"

definition page_one :: json where
  "page_one = JObj [(''titles'', JArr
      [JObj [(''titleId'', JStr ''PPSA01''), (''name'', JStr ''Astro''), (''category'', JStr ''ps5_native_game''),
             (''imageUrl'', JStr ''https://img/astro.png'')],
       JObj [(''titleId'', JStr ''APP01''), (''name'', JStr ''Media''), (''category'', JStr ''ps4_nongame_mini_app'')]]),
     (''nextOffset'', JNum 100)]"

definition page_two :: json where
  "page_two = JObj [(''titles'', JArr
      [JObj [(''titleId'', JStr ''CUSA02''), (''name'', JStr ''Journey''), (''category'', JStr ''ps4_game'')]]),
     (''nextOffset'', JNum 0)]"

definition psn_stub :: env where
  "psn_stub = stub_env (\<lambda>n. Inl (Thrown ''unused'')) (Some psn_search_two)
                (\<lambda>n. if n = 3 then Inr (Some page_one) else Inr (Some page_two))"

definition psn_nobody_stub :: env where
  "psn_nobody_stub = stub_env (\<lambda>n. Inl (Thrown ''unused'')) (Some psn_search_none)
                (\<lambda>n. Inr (Some page_two))"

definition psn_auth :: jsval where
  "psn_auth = Some (JObj [(''accessToken'', JStr ''token'')])"

definition psn_calls :: "call list" where
  "psn_calls = [ExchangeNpssoForAccessCode ''npsso'',
                ExchangeAccessCodeForAuthTokens (Some (JStr ''code'')),
                MakeUniversalSearch psn_auth (Some (JStr ''player'')) ''SocialAllAccounts'']"

definition psn_start :: loop_state where
  "psn_start = \<lparr>psGames = [], offset = JNum 0, hasNextPage = True, calls = psn_calls\<rparr>"

definition xbox_person :: json where
  "xbox_person = JObj [(''people'', JArr [JObj [(''xuid'', JStr ''2533274'') , (''gamertag'', JStr ''player'')]])]"

definition xbox_titles_blank :: json where
  "xbox_titles_blank = JObj [(''xuid'', JStr ''2533274''),
     (''titles'', JArr [JObj [(''titleId'', JStr ''1144039928''), (''name'', JStr ''''),
                             (''displayImage'', JNull)]])]"

definition xbox_titles :: json where
  "xbox_titles = JObj [(''xuid'', JStr ''2533274''),
     (''titles'', JArr [JObj [(''titleId'', JStr ''1144039928''), (''name'', JStr ''Halo''),
                             (''displayImage'', JStr ''https://img/halo.png''), (''type'', JStr ''Game'')],
                        JObj [(''titleId'', JStr ''219630713''), (''name'', JStr ''Forza'')]])]"

definition xbox_blank_stub :: env where
  "xbox_blank_stub = stub_env (\<lambda>n. if n = 0 then http_ok xbox_person else http_ok xbox_titles_blank)
                       None (\<lambda>n. Inl (Thrown ''unused''))"

definition xbox_stub :: env where
  "xbox_stub = stub_env (\<lambda>n. if n = 0 then http_ok xbox_person else http_ok xbox_titles)
                       None (\<lambda>n. Inl (Thrown ''unused''))"

definition psn_response :: response where
  "psn_response =
     \<lparr>status = 200,
      body = Json (Some (JObj
        [(''total'', JNum 2),
         (''games'', JArr [JObj [(''appid'', JStr ''PPSA01''), (''name'', JStr ''Astro''),
                                 (''logo'', JStr ''https://img/astro.png'')],
                           JObj [(''appid'', JStr ''CUSA02''), (''name'', JStr ''Journey'')]])]))\<rparr>"

section \<open>Properties\<close>

subsection \<open>Auxiliary facts\<close>

lemma bind_exn_simps [simp]:
  "bind_exn (Inl e) f = Inl e"
  "bind_exn (Inr x) f = f x"
  by (simp_all add: bind_exn_def)

lemma get_prop_own: "g \<noteq> JNull \<Longrightarrow> get_prop (Some g) k = Inr (own_prop g k)"
  by (cases g) simp_all


lemma simplified_game_own: "g \<noteq> JNull \<Longrightarrow> simplified_game (Some g) = Inr (appid_name g)"
  by (simp add: simplified_game_def appid_name_def get_prop_own)

lemma appid_name_props:
  "own_prop (appid_name g) k =
     (if k = ''appid'' then own_prop g ''appid''
      else if k = ''name'' then own_prop g ''name'' else None)"
  by (cases "own_prop g ''appid''"; cases "own_prop g ''name''") (simp_all add: appid_name_def obj_def)

lemma get_prop_Inr:
  assumes "get_prop page k = Inr v"
  shows "\<exists>j. page = Some j \<and> j \<noteq> JNull"
proof (cases page)
  case None
  with assms show ?thesis by simp
next
  case (Some j)
  with assms show ?thesis by (cases j) auto
qed

lemma push_title_own:
  "t \<noteq> JNull \<Longrightarrow>
   push_title (Some t) acc = Inr (if accepted t then acc @ [normalized_title t] else acc)"
  by (simp add: push_title_def accepted_def normalized_title_def get_prop_own)

lemma forEach_push_title:
  "JNull \<notin> set ts \<Longrightarrow>
   forEach_exn (\<lambda>x. push_title (Some x)) ts acc = Inr (acc @ map normalized_title (filter accepted ts))"
  by (induction ts arbitrary: acc) (auto simp: push_title_own)

lemma well_formed_titles:
  assumes "well_formed page"
  obtains ts where "get_prop page ''titles'' = Inr (Some (JArr ts))" "JNull \<notin> set ts"
                   "page_titles page = ts" "get_prop page ''nextOffset'' = Inr (next_offset page)"
proof -
  from assms obtain ts where ts: "get_prop page ''titles'' = Inr (Some (JArr ts))" "JNull \<notin> set ts"
    by (auto simp: well_formed_def split: sum.splits option.splits json.splits)
  then obtain j where "page = Some j" "j \<noteq> JNull"
    by (auto dest: get_prop_Inr)
  then have "get_prop page ''nextOffset'' = Inr (next_offset page)"
    by (simp add: next_offset_def get_prop_own)
  with ts show ?thesis using that by (simp add: page_titles_def)
qed

lemma iteration_page:
  assumes "getUserPlayedGames env (length (calls s)) authorization accountId 100 (offset s) = Inr page"
    and "well_formed page"
  shows "iteration env authorization accountId s =
           (None, s\<lparr>calls := calls s @ [GetUserPlayedGames authorization accountId 100 (offset s)],
                    psGames := psGames s @ kept_titles page,
                    hasNextPage := (if truthy (next_offset page) then hasNextPage s else False),
                    offset := nullish (next_offset page) (JNum 0)\<rparr>)"
proof -
  from assms(2) obtain ts where ts: "get_prop page ''titles'' = Inr (Some (JArr ts))" "JNull \<notin> set ts"
     "page_titles page = ts" "get_prop page ''nextOffset'' = Inr (next_offset page)"
    by (rule well_formed_titles)
  show ?thesis
    using assms(1) ts by (auto simp add: iteration_def Let_def forEach_push_title kept_titles_def)
qed

lemma drain_pages:
  assumes "draining pages"
    and "\<forall>page \<in> set pages. well_formed page"
    and "serves env authorization accountId (length (calls s)) (offset s) pages"
    and "hasNextPage s"
  shows "\<exists>s'. while_hasNextPage env authorization accountId s = Some (None, s')
             \<and> psGames s' = psGames s @ concat (map kept_titles pages)"
  using assms
proof (induction pages arbitrary: s rule: draining.induct)
  case 1
  then show ?case by simp
next
  case (2 page)
  then have it: "iteration env authorization accountId s =
           (None, s\<lparr>calls := calls s @ [GetUserPlayedGames authorization accountId 100 (offset s)],
                    psGames := psGames s @ kept_titles page,
                    hasNextPage := False,
                    offset := nullish (next_offset page) (JNum 0)\<rparr>)"
    by (simp add: iteration_page)
  show ?case
    using 2(4) by (subst while_hasNextPage.simps, simp add: it, subst while_hasNextPage.simps, simp)
next
  case (3 page p' pages)
  let ?s1 = "s\<lparr>calls := calls s @ [GetUserPlayedGames authorization accountId 100 (offset s)],
                    psGames := psGames s @ kept_titles page,
                    hasNextPage := True,
                    offset := nullish (next_offset page) (JNum 0)\<rparr>"
  from 3 have it: "iteration env authorization accountId s = (None, ?s1)"
    by (simp add: iteration_page)
  have "\<exists>s'. while_hasNextPage env authorization accountId ?s1 = Some (None, s')
             \<and> psGames s' = psGames ?s1 @ concat (map kept_titles (p' # pages))"
    using 3 by (intro "3.IH") simp_all
  then show ?case
    using 3(5) by (subst while_hasNextPage.simps) (simp add: it)
qed

lemma iteration_served:
  assumes "getUserPlayedGames env (length (calls s)) authorization accountId 100 (offset s) = Inr page"
    and "iteration env authorization accountId s = (None, s')"
  shows "length (calls s') = Suc (length (calls s))"
    and "offset s' = nullish (next_offset page) (JNum 0)"
    and "hasNextPage s' = (truthy (next_offset page) \<and> hasNextPage s)"
    and "get_prop page ''nextOffset'' = Inr (next_offset page)"
  using assms
  by (auto simp: iteration_def Let_def next_offset_def split: sum.splits if_splits)

lemma iteration_thrown:
  assumes "iteration env authorization accountId s = (None, s')"
  shows "\<exists>page. getUserPlayedGames env (length (calls s)) authorization accountId 100 (offset s) = Inr page"
  using assms by (auto simp: iteration_def Let_def split: sum.splits)

lemma truthy_nullish: "truthy v \<Longrightarrow> v = Some (nullish v d) \<and> nullish v d \<noteq> JNum 0"
  by (cases "(v, d)" rule: nullish.cases) auto

lemma while_returns:
  assumes "pages \<noteq> []"
    and "\<not> truthy (next_offset (last pages))"
    and "serves env authorization accountId (length (calls s)) (offset s) pages"
  shows "\<exists>r. while_hasNextPage env authorization accountId s = Some r"
  using assms
proof (induction pages arbitrary: s)
  case Nil
  then show ?case by simp
next
  case (Cons page pages)
  note IH = Cons.IH and prems = Cons.prems
  from prems(3)
  have page: "getUserPlayedGames env (length (calls s)) authorization accountId 100 (offset s) = Inr page"
    and rest: "serves env authorization accountId (Suc (length (calls s)))
                 (nullish (next_offset page) (JNum 0)) pages"
    by simp_all
  show ?case
  proof (cases "hasNextPage s")
    case False
    then show ?thesis by (subst while_hasNextPage.simps) simp
  next
    case True
    obtain x s' where it: "iteration env authorization accountId s = (x, s')"
      by (cases "iteration env authorization accountId s")
    show ?thesis
    proof (cases x)
      case (Some e)
      with True it show ?thesis by (subst while_hasNextPage.simps) simp
    next
      case None
      note facts = iteration_served[OF page it[unfolded None]]
      show ?thesis
      proof (cases pages)
        case Nil
        with prems(2) facts(3) have "\<not> hasNextPage s'" by simp
        then have "while_hasNextPage env authorization accountId s' = Some (None, s')"
          by (subst while_hasNextPage.simps) simp
        with True it None show ?thesis by (subst while_hasNextPage.simps) simp
      next
        case (Cons p ps)
        have "pages \<noteq> []" using Cons by simp
        moreover from Cons prems(2) have "\<not> truthy (next_offset (last pages))" by simp
        moreover have "serves env authorization accountId (length (calls s')) (offset s') pages"
          using rest facts by simp
        ultimately have "\<exists>r. while_hasNextPage env authorization accountId s' = Some r"
          by (rule IH)
        with True it None show ?thesis by (subst while_hasNextPage.simps) simp
      qed
    qed
  qed
qed

lemma trim_plain: "trim ''2533274'' = ''2533274''"
proof -
  have "leading_space ''2533274'' = 0"
    by (simp add: leading_space_def white_space_def)
  moreover have "trailing_space ''4723352'' = 0"
    by (simp add: trailing_space_def white_space_def)
  ultimately show ?thesis
    by (simp add: trim_def strip.simps)
qed

lemma while_invariant:
  assumes run: "while_hasNextPage env authorization accountId s = Some r"
    and start: "I s"
    and step: "\<And>t x t'. I t \<Longrightarrow> iteration env authorization accountId t = (x, t') \<Longrightarrow> I t'"
  shows "I (snd r)"
proof -
  let ?P = "\<lambda>e a c s r. e = env \<and> a = authorization \<and> c = accountId \<and> I s \<longrightarrow> I (snd r)"
  have "?P env authorization accountId s r"
  proof (rule while_hasNextPage.raw_induct[where P = ?P, OF _ run])
    fix w e a c s r
    assume IH: "\<And>e a c s r. w e a c s = Some r \<Longrightarrow> ?P e a c s r"
      and unfolded: "(if hasNextPage s
           then case iteration e a c s of
                  (None, s') \<Rightarrow> w e a c s'
                | (Some ex, s') \<Rightarrow> Some (Some ex, s')
           else Some (None, s)) = Some r"
    show "?P e a c s r"
    proof (intro impI, elim conjE)
      assume eqs: "e = env" "a = authorization" "c = accountId" and I: "I s"
      show "I (snd r)"
      proof (cases "hasNextPage s")
        case False
        with unfolded I show ?thesis by auto
      next
        case True
        obtain x t' where it: "iteration e a c s = (x, t')"
          by (cases "iteration e a c s")
        have I': "I t'" using step I it eqs by blast
        show ?thesis
        proof (cases x)
          case (Some ex)
          with True it unfolded have "r = (Some ex, t')" by simp
          with I' show ?thesis by simp
        next
          case None
          with True it unfolded have "w e a c t' = Some r" by simp
          from IH[OF this] eqs I' show ?thesis by blast
        qed
      qed
    qed
  qed
  with start show ?thesis by blast
qed

lemma shape_ok_obj:
  "shape_ok (obj [(''appid'', a), (''name'', n), (''logo'', l)]) = (nonempty a \<and> nonempty n \<and> logo_ok l)"
  by (cases a; cases n; cases l) (simp_all add: shape_ok_def obj_def)

lemma shape_ok_obj2:
  "shape_ok (obj [(''appid'', a), (''name'', n)]) = (nonempty a \<and> nonempty n)"
  by (cases a; cases n) (simp_all add: shape_ok_def obj_def)

lemma record_ok_not_null: "record_ok i m t \<Longrightarrow> t \<noteq> JNull"
  by (auto simp: record_ok_def)

lemma array_map_Inr:
  assumes "array_map f v = Inr ys"
  obtains xs where "v = Some (JArr xs)" "map_exn (\<lambda>x. f (Some x)) xs = Inr ys"
  using assms by (cases "(f, v)" rule: array_map.cases) simp_all

lemma array_forEach_Inr:
  assumes "array_forEach f v s = Inr s'"
  obtains xs where "v = Some (JArr xs)" "forEach_exn (\<lambda>x. f (Some x)) xs s = Inr s'"
  using assms by (cases "(f, v, s)" rule: array_forEach.cases) simp_all

lemma map_exn_list_all:
  assumes "map_exn f xs = Inr ys"
    and "\<And>x y. x \<in> set xs \<Longrightarrow> f x = Inr y \<Longrightarrow> P y"
  shows "list_all P ys"
  using assms
proof (induction xs arbitrary: ys)
  case Nil
  then show ?case by simp
next
  case (Cons x xs)
  from Cons.prems(1) obtain y ys' where parts: "f x = Inr y" "map_exn f xs = Inr ys'" "ys = y # ys'"
    by (auto split: sum.splits)
  have "P y" using parts(1) Cons.prems(2)[of x y] by simp
  moreover have "list_all P ys'"
  proof (rule Cons.IH[OF parts(2)])
    fix x' y' assume "x' \<in> set xs" "f x' = Inr y'"
    then show "P y'" using Cons.prems(2)[of x' y'] by simp
  qed
  ultimately show ?case using parts(3) by simp
qed

lemma iteration_shape:
  assumes up: "\<And>n au ac off page titles.
          getUserPlayedGames env n au ac 100 off = Inr page \<Longrightarrow>
          get_prop page ''titles'' = Inr (Some (JArr titles)) \<Longrightarrow>
          \<forall>t \<in> set titles. record_ok ''titleId'' ''imageUrl'' t"
    and inv: "list_all shape_ok (psGames t)"
    and it: "iteration env authorization accountId t = (x, t')"
  shows "list_all shape_ok (psGames t')"
proof (cases "getUserPlayedGames env (length (calls t)) authorization accountId 100 (offset t)")
  case (Inl e)
  with it inv show ?thesis by (auto simp: iteration_def Let_def)
next
  case page: (Inr page)
  show ?thesis
  proof (cases "bind_exn (get_prop page ''titles'')
                  (\<lambda>titles. array_forEach push_title titles (psGames t))")
    case (Inl e)
    with it inv page show ?thesis by (auto simp: iteration_def Let_def)
  next
    case games: (Inr games)
    then obtain tv where tv: "get_prop page ''titles'' = Inr tv"
      and fe: "array_forEach push_title tv (psGames t) = Inr games"
      by (cases "get_prop page ''titles''") simp_all
    from fe obtain ts where ts: "tv = Some (JArr ts)"
      and fe': "forEach_exn (\<lambda>x. push_title (Some x)) ts (psGames t) = Inr games"
      by (rule array_forEach_Inr)
    from up[OF page tv[unfolded ts]] have ok: "\<forall>t \<in> set ts. record_ok ''titleId'' ''imageUrl'' t" .
    then have "JNull \<notin> set ts" by (auto dest: record_ok_not_null)
    with fe' have g: "games = psGames t @ map normalized_title (filter accepted ts)"
      by (simp add: forEach_push_title)
    have "list_all shape_ok (map normalized_title (filter accepted ts))"
      using ok by (auto simp: list_all_iff normalized_title_def shape_ok_obj record_ok_def)
    with inv g have "list_all shape_ok games" by simp
    with it page games inv show ?thesis
      by (auto simp: iteration_def Let_def split: sum.splits)
  qed
qed

lemma fetchPSGames_shape:
  assumes up: "\<And>n au ac off page titles.
          getUserPlayedGames env n au ac 100 off = Inr page \<Longrightarrow>
          get_prop page ''titles'' = Inr (Some (JArr titles)) \<Longrightarrow>
          \<forall>t \<in> set titles. record_ok ''titleId'' ''imageUrl'' t"
    and run: "fetchPSGames env q = Some (r, cs)"
    and success: "status r = 200"
  shows "list_all shape_ok (games_of r)"
proof (cases "truthy (map_of q ''username'')")
  case False
  with run success show ?thesis by (auto simp: fetchPSGames_def send_def)
next
  case True
  show ?thesis
  proof (cases "exchangeNpssoForAccessCode env 0 (PS_API env)")
    case (Inl e)
    with True run success show ?thesis by (auto simp: fetchPSGames_def send_def)
  next
    case hop1: (Inr accessCode)
    show ?thesis
    proof (cases "exchangeAccessCodeForAuthTokens env 1 accessCode")
      case (Inl e)
      with True hop1 run success show ?thesis by (auto simp: fetchPSGames_def send_def)
    next
      case hop2: (Inr authorization)
      show ?thesis
      proof (cases "bind_exn (makeUniversalSearch env 2 authorization (map_of q ''username'')
                       ''SocialAllAccounts'') first_accountId")
        case (Inl e)
        with True hop1 hop2 run success show ?thesis by (auto simp: fetchPSGames_def send_def)
      next
        case hop3: (Inr accountId)
        let ?s = "\<lparr>psGames = [], offset = JNum 0, hasNextPage = True,
                   calls = [ExchangeNpssoForAccessCode (PS_API env),
                            ExchangeAccessCodeForAuthTokens accessCode,
                            MakeUniversalSearch authorization (map_of q ''username'')
                              ''SocialAllAccounts'']\<rparr>"
        from True hop1 hop2 hop3 run
        obtain res where loop: "while_hasNextPage env authorization accountId ?s = Some res"
          and resp: "ps_respond res = (r, cs)"
          by (auto simp: fetchPSGames_def)
        have inv: "list_all shape_ok (psGames (snd res))"
          by (rule while_invariant[OF loop, where I = "\<lambda>s. list_all shape_ok (psGames s)"])
             (simp, rule iteration_shape[OF up], assumption+)
        obtain x s' where res: "res = (x, s')" by (cases res)
        show ?thesis
        proof (cases x)
          case (Some e)
          with res resp success show ?thesis by (auto simp: ps_respond_def send_def)
        next
          case None
          with res resp have "games_of r = psGames s'"
            by (auto simp: ps_respond_def send_json_def games_of_def obj_def)
          with inv res show ?thesis by simp
        qed
      qed
    qed
  qed
qed

lemma xbox_game_shape:
  assumes "record_ok ''titleId'' ''displayImage'' t" and "xbox_game (Some t) = Inr g"
  shows "shape_ok g"
proof -
  from assms(1) have "t \<noteq> JNull" by (rule record_ok_not_null)
  with assms show ?thesis
    by (auto simp: xbox_game_def get_prop_own shape_ok_obj record_ok_def)
qed

lemma simplified_game_shape:
  assumes "nonempty (own_prop t ''appid'') \<and> nonempty (own_prop t ''name'')"
    and "simplified_game (Some t) = Inr g"
  shows "shape_ok g"
proof -
  from assms(1) have "t \<noteq> JNull" by auto
  with assms show ?thesis
    by (auto simp: simplified_game_def get_prop_own shape_ok_obj2)
qed

lemma fetchXboxGames_shape:
  assumes up: "\<And>url headers r data titles.
          fetch env 1 url headers = Inr r \<Longrightarrow> resp_json r = Inr data \<Longrightarrow>
          get_prop data ''titles'' = Inr (Some (JArr titles)) \<Longrightarrow>
          \<forall>t \<in> set titles. record_ok ''titleId'' ''displayImage'' t"
    and success: "status (fst (fetchXboxGames env q)) = 200"
  shows "list_all shape_ok (games_of (fst (fetchXboxGames env q)))"
proof -
  have ok_200: "\<And>r. \<not> ok r \<Longrightarrow> resp_status r \<noteq> 200" by (auto simp: ok_def)
  from success obtain url headers r data data_titles gamesInfo
    where second: "fetch env 1 url headers = Inr r" "resp_json r = Inr data"
      and titles: "get_prop data ''titles'' = Inr data_titles"
      and mapped: "array_map xbox_game (if truthy data_titles then data_titles else Some (JArr []))
                     = Inr gamesInfo"
      and games: "games_of (fst (fetchXboxGames env q)) = gamesInfo"
    by (auto simp: fetchXboxGames_def Let_def send_def send_json_def games_of_def obj_def
             dest: ok_200 split: sum.splits if_splits option.splits)
  show ?thesis
  proof (cases "truthy data_titles")
    case False
    with mapped games show ?thesis by simp
  next
    case True
    with mapped obtain ts where ts: "data_titles = Some (JArr ts)"
      and m: "map_exn (\<lambda>x. xbox_game (Some x)) ts = Inr gamesInfo"
      by (auto elim: array_map_Inr)
    from up[OF second titles[unfolded ts]]
    have "\<forall>t \<in> set ts. record_ok ''titleId'' ''displayImage'' t" .
    with m have "list_all shape_ok gamesInfo"
      by (intro map_exn_list_all[OF m]) (auto intro: xbox_game_shape)
    with games show ?thesis by simp
  qed
qed

lemma fetchSteamGames_200:
  assumes "status (fst (fetchSteamGames env q)) = 200"
  obtains url r gamesData gamesResponse games simplifiedGames
  where "fetch env 1 url [] = Inr r" "resp_json r = Inr gamesData"
    "get_prop gamesData ''response'' = Inr gamesResponse"
    "get_prop gamesResponse ''games'' = Inr (Some (JArr games))"
    "map_exn (\<lambda>x. simplified_game (Some x)) games = Inr simplifiedGames"
    "fst (fetchSteamGames env q) =
       \<lparr>status = 200, body = Json (Some (JObj [(''games'', JArr simplifiedGames)]))\<rparr>"
proof -
  have ok_200: "\<And>r. \<not> ok r \<Longrightarrow> resp_status r \<noteq> 200" by (auto simp: ok_def)
  from assms obtain url r gamesData gamesResponse gv simplifiedGames
    where a: "fetch env 1 url [] = Inr r" "resp_json r = Inr gamesData"
    "get_prop gamesData ''response'' = Inr gamesResponse"
    "get_prop gamesResponse ''games'' = Inr gv"
    "array_map simplified_game gv = Inr simplifiedGames"
    "fst (fetchSteamGames env q) =
       \<lparr>status = 200, body = Json (Some (JObj [(''games'', JArr simplifiedGames)]))\<rparr>"
    by (auto simp: fetchSteamGames_def Let_def send_def send_json_def obj_def bind_exn_def
             dest: ok_200 split: sum.splits if_splits)
  from a(5) obtain games where "gv = Some (JArr games)"
    "map_exn (\<lambda>x. simplified_game (Some x)) games = Inr simplifiedGames"
    by (rule array_map_Inr)
  with a that show ?thesis by blast
qed

lemma get_prop_Some:
  assumes "get_prop v k = Inr (Some x)"
  obtains kvs where "v = Some (JObj kvs)" "map_of kvs k = Some x"
proof -
  from assms obtain j where j: "v = Some j" "j \<noteq> JNull" by (auto dest: get_prop_Inr)
  with assms show ?thesis using that by (cases j) auto
qed

lemma map_exn_simplified:
  "map_exn (\<lambda>x. simplified_game (Some x)) games = Inr ys \<Longrightarrow> ys = map appid_name games"
proof (induction games arbitrary: ys)
  case Nil
  then show ?case by simp
next
  case (Cons g games)
  from Cons.prems obtain y ys' where parts: "simplified_game (Some g) = Inr y"
      "map_exn (\<lambda>x. simplified_game (Some x)) games = Inr ys'" "ys = y # ys'"
    by (auto split: sum.splits)
  from parts(1) have "g \<noteq> JNull" by (auto simp: simplified_game_def)
  with parts(1) have "y = appid_name g" by (simp add: simplified_game_own)
  with parts Cons.IH show ?case by simp
qed

lemma fetchSteamGames_no_logo:
  assumes "status (fst (fetchSteamGames env q)) = 200"
  shows "list_all (\<lambda>g. own_prop g ''logo'' = None) (games_of (fst (fetchSteamGames env q)))"
proof -
  from assms obtain url r gamesData gamesResponse games simplifiedGames
    where a: "map_exn (\<lambda>x. simplified_game (Some x)) games = Inr simplifiedGames"
    "fst (fetchSteamGames env q) =
       \<lparr>status = 200, body = Json (Some (JObj [(''games'', JArr simplifiedGames)]))\<rparr>"
    by (rule fetchSteamGames_200)
  from a(1) have "simplifiedGames = map appid_name games" by (rule map_exn_simplified)
  with a(2) show ?thesis
    by (simp add: games_of_def list_all_iff appid_name_props)
qed

text \<open>A complete run of \<open>fetchPSGames\<close> against the two-page test double.\<close>

lemma psn_stub_run:
  "fetchPSGames psn_stub [(''username'', JStr ''player'')] =
     Some (psn_response,
           psn_calls @ [GetUserPlayedGames psn_auth (Some (JStr ''acc-1'')) 100 (JNum 0),
                        GetUserPlayedGames psn_auth (Some (JStr ''acc-1'')) 100 (JNum 100)])"
proof -
  let ?s1 = "\<lparr>psGames = [JObj [(''appid'', JStr ''PPSA01''), (''name'', JStr ''Astro''),
                                 (''logo'', JStr ''https://img/astro.png'')]],
              offset = JNum 100, hasNextPage = True,
              calls = psn_calls @ [GetUserPlayedGames psn_auth (Some (JStr ''acc-1'')) 100 (JNum 0)]\<rparr>"
  let ?s2 = "\<lparr>psGames = [JObj [(''appid'', JStr ''PPSA01''), (''name'', JStr ''Astro''),
                                 (''logo'', JStr ''https://img/astro.png'')],
                          JObj [(''appid'', JStr ''CUSA02''), (''name'', JStr ''Journey'')]],
              offset = JNum 0, hasNextPage = False,
              calls = psn_calls @ [GetUserPlayedGames psn_auth (Some (JStr ''acc-1'')) 100 (JNum 0),
                        GetUserPlayedGames psn_auth (Some (JStr ''acc-1'')) 100 (JNum 100)]\<rparr>"
  have i1: "iteration psn_stub psn_auth (Some (JStr ''acc-1'')) psn_start = (None, ?s1)"
    by (simp add: iteration_def psn_start_def psn_calls_def psn_stub_def stub_env_def page_one_def
          push_title_def obj_def)
  have i2: "iteration psn_stub psn_auth (Some (JStr ''acc-1'')) ?s1 = (None, ?s2)"
    by (simp add: iteration_def psn_calls_def psn_stub_def stub_env_def page_two_def
          push_title_def obj_def)
  have "while_hasNextPage psn_stub psn_auth (Some (JStr ''acc-1'')) ?s2 = Some (None, ?s2)"
    by (subst while_hasNextPage.simps) simp
  then have "while_hasNextPage psn_stub psn_auth (Some (JStr ''acc-1'')) ?s1 = Some (None, ?s2)"
    by (subst while_hasNextPage.simps) (simp add: i2)
  then have "while_hasNextPage psn_stub psn_auth (Some (JStr ''acc-1'')) psn_start = Some (None, ?s2)"
    by (subst while_hasNextPage.simps) (simp add: i1, simp add: psn_start_def)
  moreover have "fetchPSGames psn_stub [(''username'', JStr ''player'')] =
     map_option ps_respond (while_hasNextPage psn_stub psn_auth (Some (JStr ''acc-1'')) psn_start)"
    by (simp add: fetchPSGames_def psn_stub_def stub_env_def psn_auth_def psn_search_two_def
          first_accountId_def psn_start_def psn_calls_def)
  ultimately show ?thesis
    by (simp add: ps_respond_def send_json_def obj_def psn_response_def)
qed

subsection \<open>The search resolver\<close>



subsection \<open>Input validation\<close>



subsection \<open>The vanity-name resolver\<close>






subsection \<open>The gamertag resolver\<close>



subsection \<open>The token-based resolver\<close>

text \<open>
  C1. Let the three hops before the loop succeed, and let the paged title endpoint
  return the pages \<open>pages\<close>, each of the declared shape, until one carries no further
  offset. Then \<open>fetchPSGames\<close> answers 200 with \<open>games\<close> the concatenation, in page
  order, of each page's kept titles (the titles whose category is \<open>ps4_game\<close> or
  \<open>ps5_native_game\<close>, and no others, in their order within the page) and \<open>total\<close>
  the length of that list.
\<close>

theorem fetchPSGames_keeps_native_titles:
  assumes "truthy (map_of q ''username'')"
    and "exchangeNpssoForAccessCode env 0 (PS_API env) = Inr accessCode"
    and "exchangeAccessCodeForAuthTokens env 1 accessCode = Inr authorization"
    and "makeUniversalSearch env 2 authorization (map_of q ''username'') ''SocialAllAccounts''
           = Inr accountSearch"
    and "first_accountId accountSearch = Inr accountId"
    and "serves env authorization accountId 3 (JNum 0) pages"
    and "draining pages"
    and "\<forall>page \<in> set pages. well_formed page"
  shows "map_option fst (fetchPSGames env q) =
           Some \<lparr>status = 200,
                 body = Json (Some (JObj
                   [(''total'', JNum (int (length (concat (map kept_titles pages))))),
                    (''games'', JArr (concat (map kept_titles pages)))]))\<rparr>"
proof -
  let ?s = "\<lparr>psGames = [], offset = JNum 0, hasNextPage = True,
             calls = [ExchangeNpssoForAccessCode (PS_API env),
                      ExchangeAccessCodeForAuthTokens accessCode,
                      MakeUniversalSearch authorization (map_of q ''username'') ''SocialAllAccounts'']\<rparr>"
  have "\<exists>s'. while_hasNextPage env authorization accountId ?s = Some (None, s')
             \<and> psGames s' = psGames ?s @ concat (map kept_titles pages)"
    using assms(6-8) by (intro drain_pages) (simp_all add: numeral_3_eq_3)
  then obtain s' where "while_hasNextPage env authorization accountId ?s = Some (None, s')"
    and "psGames s' = concat (map kept_titles pages)"
    by auto
  with assms(1-5) show ?thesis
    by (simp add: fetchPSGames_def Let_def ps_respond_def send_json_def obj_def)
qed

theorem fetchPSGames_keeps_native_titles_witness:
  "map_option fst (fetchPSGames psn_stub [(''username'', JStr ''player'')]) =
     Some \<lparr>status = 200,
           body = Json (Some (JObj
             [(''total'', JNum 2),
              (''games'', JArr [JObj [(''appid'', JStr ''PPSA01''), (''name'', JStr ''Astro''),
                                      (''logo'', JStr ''https://img/astro.png'')],
                                JObj [(''appid'', JStr ''CUSA02''), (''name'', JStr ''Journey'')]])]))\<rparr>"
  using fetchPSGames_keeps_native_titles[where env = psn_stub and q = "[(''username'', JStr ''player'')]"
      and accessCode = "Some (JStr ''code'')" and authorization = psn_auth
      and accountSearch = "Some psn_search_two" and accountId = "Some (JStr ''acc-1'')"
      and pages = "[Some page_one, Some page_two]"]
  by (simp add: psn_stub_def stub_env_def psn_auth_def psn_search_two_def first_accountId_def
        page_one_def page_two_def next_offset_def well_formed_def kept_titles_def page_titles_def
        accepted_def normalized_title_def obj_def)

text \<open>
  C2. The draining loop returns whenever the paged endpoint serves a finite, non-empty
  sequence of pages whose last page carries a \<open>nextOffset\<close> that is 0 or absent,
  from whatever state the loop is entered. And every iteration entered with
  \<open>hasNextPage\<close> set either leaves the loop (by an exception, or by clearing
  \<open>hasNextPage\<close>, after which the loop returns) or sets the cursor to the
  \<open>nextOffset\<close> of the page it fetched, which is then not 0.
\<close>

theorem pagination_terminates:
  assumes "pages \<noteq> []"
    and "next_offset (last pages) = None \<or> next_offset (last pages) = Some (JNum 0)"
    and "serves env authorization accountId (length (calls s)) (offset s) pages"
  shows "(\<exists>r. while_hasNextPage env authorization accountId s = Some r)
       \<and> (\<forall>t::loop_state. hasNextPage t \<longrightarrow>
            (case iteration env authorization accountId t of
               (Some e, t') \<Rightarrow> while_hasNextPage env authorization accountId t = Some (Some e, t')
             | (None, t') \<Rightarrow>
                 (\<exists>page. getUserPlayedGames env (length (calls t)) authorization accountId 100 (offset t)
                            = Inr page
                    \<and> (if hasNextPage t'
                        then get_prop page ''nextOffset'' = Inr (Some (offset t')) \<and> offset t' \<noteq> JNum 0
                        else while_hasNextPage env authorization accountId t = Some (None, t')))))"
proof
  from assms(2) have "\<not> truthy (next_offset (last pages))" by auto
  with assms(1,3) show "\<exists>r. while_hasNextPage env authorization accountId s = Some r"
    by (intro while_returns)
next
  show "\<forall>t::loop_state. hasNextPage t \<longrightarrow>
            (case iteration env authorization accountId t of
               (Some e, t') \<Rightarrow> while_hasNextPage env authorization accountId t = Some (Some e, t')
             | (None, t') \<Rightarrow>
                 (\<exists>page. getUserPlayedGames env (length (calls t)) authorization accountId 100 (offset t)
                            = Inr page
                    \<and> (if hasNextPage t'
                        then get_prop page ''nextOffset'' = Inr (Some (offset t')) \<and> offset t' \<noteq> JNum 0
                        else while_hasNextPage env authorization accountId t = Some (None, t'))))"
  proof (intro allI impI)
    fix t :: loop_state assume t: "hasNextPage t"
    obtain x t' where it: "iteration env authorization accountId t = (x, t')"
      by (cases "iteration env authorization accountId t")
    show "case iteration env authorization accountId t of
               (Some e, t') \<Rightarrow> while_hasNextPage env authorization accountId t = Some (Some e, t')
             | (None, t') \<Rightarrow>
                 (\<exists>page. getUserPlayedGames env (length (calls t)) authorization accountId 100 (offset t)
                            = Inr page
                    \<and> (if hasNextPage t'
                        then get_prop page ''nextOffset'' = Inr (Some (offset t')) \<and> offset t' \<noteq> JNum 0
                        else while_hasNextPage env authorization accountId t = Some (None, t')))"
    proof (cases x)
      case (Some e)
      with t it show ?thesis by (subst while_hasNextPage.simps) simp
    next
      case None
      from iteration_thrown[OF it[unfolded None]] obtain page
        where page: "getUserPlayedGames env (length (calls t)) authorization accountId 100 (offset t) = Inr page"
        by blast
      note facts = iteration_served[OF page it[unfolded None]]
      show ?thesis
      proof (cases "hasNextPage t'")
        case True
        with facts(3) have "truthy (next_offset page)" by simp
        from truthy_nullish[OF this, of "JNum 0"] facts True page it None
        show ?thesis by simp
      next
        case False
        then have "while_hasNextPage env authorization accountId t' = Some (None, t')"
          by (subst while_hasNextPage.simps) simp
        then have "while_hasNextPage env authorization accountId t = Some (None, t')"
          using t it None by (subst while_hasNextPage.simps) simp
        with False page it None show ?thesis by simp
      qed
    qed
  qed
qed

theorem pagination_terminates_witness:
  "(\<exists>r. while_hasNextPage psn_stub psn_auth (Some (JStr ''acc-1'')) psn_start = Some r)
   \<and> hasNextPage psn_start
   \<and> fst (iteration psn_stub psn_auth (Some (JStr ''acc-1'')) psn_start) = None
   \<and> hasNextPage (snd (iteration psn_stub psn_auth (Some (JStr ''acc-1'')) psn_start))
   \<and> offset (snd (iteration psn_stub psn_auth (Some (JStr ''acc-1'')) psn_start)) = JNum 100"
proof -
  have "\<exists>r. while_hasNextPage psn_stub psn_auth (Some (JStr ''acc-1'')) psn_start = Some r"
    using pagination_terminates[where env = psn_stub and authorization = psn_auth
        and accountId = "Some (JStr ''acc-1'')" and s = psn_start
        and pages = "[Some page_one, Some page_two]"]
    by (simp add: psn_start_def psn_calls_def psn_stub_def stub_env_def page_one_def page_two_def
          next_offset_def)
  moreover have "iteration psn_stub psn_auth (Some (JStr ''acc-1'')) psn_start =
    (None, psn_start\<lparr>calls := psn_calls @ [GetUserPlayedGames psn_auth (Some (JStr ''acc-1'')) 100 (JNum 0)],
                     psGames := kept_titles (Some page_one), offset := JNum 100\<rparr>)"
    by (simp add: iteration_def psn_start_def psn_calls_def psn_stub_def stub_env_def page_one_def
          push_title_def kept_titles_def page_titles_def accepted_def normalized_title_def)
  ultimately show ?thesis by (simp add: psn_start_def)
qed

text \<open>The handler as a whole returns under the same condition.\<close>

lemma fetchPSGames_returns:
  assumes "pages \<noteq> []"
    and "next_offset (last pages) = None \<or> next_offset (last pages) = Some (JNum 0)"
    and "\<And>authorization accountId. serves env authorization accountId 3 (JNum 0) pages"
  shows "\<exists>r. fetchPSGames env q = Some r"
proof -
  from assms(2) have last: "\<not> truthy (next_offset (last pages))" by auto
  have loop: "\<exists>r. while_hasNextPage env authorization accountId
               \<lparr>psGames = [], offset = JNum 0, hasNextPage = True, calls = [c1, c2, c3]\<rparr> = Some r"
    for authorization accountId c1 c2 c3
    using assms(1) last assms(3)[of authorization accountId]
    by (intro while_returns) (simp_all add: numeral_3_eq_3)
  show ?thesis
  proof (cases "truthy (map_of q ''username'')")
    case False
    then show ?thesis by (simp add: fetchPSGames_def)
  next
    case True
    show ?thesis
    proof (cases "exchangeNpssoForAccessCode env 0 (PS_API env)")
      case (Inl e)
      with True show ?thesis by (simp add: fetchPSGames_def)
    next
      case hop1: (Inr accessCode)
      show ?thesis
      proof (cases "exchangeAccessCodeForAuthTokens env 1 accessCode")
        case (Inl e)
        with True hop1 show ?thesis by (simp add: fetchPSGames_def)
      next
        case hop2: (Inr authorization)
        show ?thesis
        proof (cases "bind_exn (makeUniversalSearch env 2 authorization (map_of q ''username'')
                         ''SocialAllAccounts'') first_accountId")
          case (Inl e)
          with True hop1 hop2 show ?thesis by (simp add: fetchPSGames_def)
        next
          case hop3: (Inr accountId)
          from loop[of authorization accountId "ExchangeNpssoForAccessCode (PS_API env)"
                 "ExchangeAccessCodeForAuthTokens accessCode"
                 "MakeUniversalSearch authorization (map_of q ''username'') ''SocialAllAccounts''"]
          obtain r where "while_hasNextPage env authorization accountId
               \<lparr>psGames = [], offset = JNum 0, hasNextPage = True,
                calls = [ExchangeNpssoForAccessCode (PS_API env),
                         ExchangeAccessCodeForAuthTokens accessCode,
                         MakeUniversalSearch authorization (map_of q ''username'')
                           ''SocialAllAccounts'']\<rparr> = Some r"
            by blast
          with True hop1 hop2 hop3 show ?thesis by (simp add: fetchPSGames_def)
        qed
      qed
    qed
  qed
qed

text \<open>
  C7. Let the hops up to the account search succeed and the first domain response
  carry a \<open>results\<close> list. If the list is not empty, the account ID the handler drains
  the title list with is the one of the first result, whatever the other results are.
  If the list is empty, the handler answers with the generic 500 response after the
  three calls made so far: the title endpoint is never called and the body holds no
  game list.
\<close>

theorem account_search_first_result:
  assumes "truthy (map_of q ''username'')"
    and "exchangeNpssoForAccessCode env 0 (PS_API env) = Inr accessCode"
    and "exchangeAccessCodeForAuthTokens env 1 accessCode = Inr authorization"
    and "makeUniversalSearch env 2 authorization (map_of q ''username'') ''SocialAllAccounts''
           = Inr accountSearch"
    and "get_prop accountSearch ''domainResponses'' = Inr domainResponses"
    and "index0 domainResponses = Inr domainResponse"
    and "get_prop domainResponse ''results'' = Inr (Some (JArr results))"
  shows "(\<forall>result others socialMetadata accountId.
            results = result # others
            \<longrightarrow> get_prop (Some result) ''socialMetadata'' = Inr socialMetadata
            \<longrightarrow> get_prop socialMetadata ''accountId'' = Inr accountId
            \<longrightarrow> fetchPSGames env q =
                  map_option ps_respond
                    (while_hasNextPage env authorization accountId
                       \<lparr>psGames = [], offset = JNum 0, hasNextPage = True,
                        calls = [ExchangeNpssoForAccessCode (PS_API env),
                                 ExchangeAccessCodeForAuthTokens accessCode,
                                 MakeUniversalSearch authorization (map_of q ''username'')
                                   ''SocialAllAccounts'']\<rparr>))
       \<and> (results = []
            \<longrightarrow> fetchPSGames env q =
                  Some (\<lparr>status = 500, body = Text ''Failed to fetch PS games''\<rparr>,
                        [ExchangeNpssoForAccessCode (PS_API env),
                         ExchangeAccessCodeForAuthTokens accessCode,
                         MakeUniversalSearch authorization (map_of q ''username'')
                           ''SocialAllAccounts'']))"
  using assms by (simp add: fetchPSGames_def Let_def first_accountId_def send_def)

theorem account_search_first_result_witness:
  "fetchPSGames psn_stub [(''username'', JStr ''player'')] =
     map_option ps_respond (while_hasNextPage psn_stub psn_auth (Some (JStr ''acc-1'')) psn_start)
   \<and> fetchPSGames psn_nobody_stub [(''username'', JStr ''player'')] =
       Some (\<lparr>status = 500, body = Text ''Failed to fetch PS games''\<rparr>, psn_calls)"
proof
  show "fetchPSGames psn_stub [(''username'', JStr ''player'')] =
     map_option ps_respond (while_hasNextPage psn_stub psn_auth (Some (JStr ''acc-1'')) psn_start)"
    using account_search_first_result[where env = psn_stub and q = "[(''username'', JStr ''player'')]"
        and accessCode = "Some (JStr ''code'')" and authorization = psn_auth
        and accountSearch = "Some psn_search_two"
        and domainResponses = "own_prop psn_search_two ''domainResponses''"
        and domainResponse = "Some (JObj [(''results'', JArr
      [JObj [(''socialMetadata'', JObj [(''accountId'', JStr ''acc-1''), (''onlineId'', JStr ''player'')])],
       JObj [(''socialMetadata'', JObj [(''accountId'', JStr ''acc-2''), (''onlineId'', JStr ''player2'')])]])])"
        and results = "[JObj [(''socialMetadata'', JObj [(''accountId'', JStr ''acc-1''), (''onlineId'', JStr ''player'')])],
       JObj [(''socialMetadata'', JObj [(''accountId'', JStr ''acc-2''), (''onlineId'', JStr ''player2'')])]]"]
    by (simp add: psn_stub_def stub_env_def psn_auth_def psn_search_two_def psn_start_def psn_calls_def)
next
  show "fetchPSGames psn_nobody_stub [(''username'', JStr ''player'')] =
       Some (\<lparr>status = 500, body = Text ''Failed to fetch PS games''\<rparr>, psn_calls)"
    using account_search_first_result[where env = psn_nobody_stub and q = "[(''username'', JStr ''player'')]"
        and accessCode = "Some (JStr ''code'')" and authorization = psn_auth
        and accountSearch = "Some psn_search_none"
        and domainResponses = "own_prop psn_search_none ''domainResponses''"
        and domainResponse = "Some (JObj [(''results'', JArr [])])"
        and results = "[]"]
    by (simp add: psn_nobody_stub_def stub_env_def psn_auth_def psn_search_none_def psn_calls_def)
qed

subsection \<open>The shape of normalised games\<close>

text \<open>
  C5, as stated, fails. The resolvers copy the upstream fields without looking at them:
  against a gamertag provider whose title has an empty \<open>name\<close> and a \<open>null\<close>
  \<open>displayImage\<close>, \<open>fetchXboxGames\<close> answers 200 with a game whose name is empty and
  whose logo is \<open>null\<close>.
\<close>

theorem normalized_shape_counterexample:
  "status (fst (fetchXboxGames xbox_blank_stub [(''username'', JStr ''player'')])) = 200
   \<and> \<not> list_all shape_ok (games_of (fst (fetchXboxGames xbox_blank_stub [(''username'', JStr ''player'')])))"
  by (simp add: fetchXboxGames_def xbox_blank_stub_def stub_env_def http_ok_def ok_def Let_def
        xbox_person_def xbox_titles_blank_def to_string_def trim_plain xbox_game_def obj_def
        send_json_def games_of_def shape_ok_def)

text \<open>
  C5, amended. For each of the three platform resolvers: provided every record its
  upstream returned has a non-empty \<open>titleId\<close> (\<open>appid\<close> for the vanity-name
  provider), a non-empty \<open>name\<close> and an image field (\<open>imageUrl\<close>, \<open>displayImage\<close>)
  that is absent or a non-empty string, every normalised game in its success response
  has a non-empty \<open>appid\<close>, a non-empty \<open>name\<close> and a \<open>logo\<close> that is absent or a
  non-empty string. And whatever the upstream returned, no game in a success response
  of \<open>fetchSteamGames\<close> has a \<open>logo\<close>.
\<close>

theorem normalized_games_mirror_upstream:
  "((\<forall>n au ac off page titles.
        getUserPlayedGames env n au ac 100 off = Inr page \<longrightarrow>
        get_prop page ''titles'' = Inr (Some (JArr titles)) \<longrightarrow>
        (\<forall>t \<in> set titles. record_ok ''titleId'' ''imageUrl'' t))
     \<longrightarrow> (\<forall>r cs. fetchPSGames env q = Some (r, cs) \<longrightarrow> status r = 200
            \<longrightarrow> list_all shape_ok (games_of r)))
   \<and> ((\<forall>url headers r data titles.
        fetch env 1 url headers = Inr r \<longrightarrow> resp_json r = Inr data \<longrightarrow>
        get_prop data ''titles'' = Inr (Some (JArr titles)) \<longrightarrow>
        (\<forall>t \<in> set titles. record_ok ''titleId'' ''displayImage'' t))
     \<longrightarrow> status (fst (fetchXboxGames env q)) = 200
     \<longrightarrow> list_all shape_ok (games_of (fst (fetchXboxGames env q))))
   \<and> ((\<forall>url r gamesData gamesResponse games.
        fetch env 1 url [] = Inr r \<longrightarrow> resp_json r = Inr gamesData \<longrightarrow>
        get_prop gamesData ''response'' = Inr gamesResponse \<longrightarrow>
        get_prop gamesResponse ''games'' = Inr (Some (JArr games)) \<longrightarrow>
        (\<forall>g \<in> set games. nonempty (own_prop g ''appid'') \<and> nonempty (own_prop g ''name'')))
     \<longrightarrow> status (fst (fetchSteamGames env q)) = 200
     \<longrightarrow> list_all shape_ok (games_of (fst (fetchSteamGames env q))))
   \<and> (status (fst (fetchSteamGames env q)) = 200
     \<longrightarrow> list_all (\<lambda>g. own_prop g ''logo'' = None) (games_of (fst (fetchSteamGames env q))))"
proof (intro conjI allI impI)
  fix r cs
  assume up: "\<forall>n au ac off page titles.
        getUserPlayedGames env n au ac 100 off = Inr page \<longrightarrow>
        get_prop page ''titles'' = Inr (Some (JArr titles)) \<longrightarrow>
        (\<forall>t \<in> set titles. record_ok ''titleId'' ''imageUrl'' t)"
    and run: "fetchPSGames env q = Some (r, cs)" "status r = 200"
  from up have "\<And>n au ac off page titles.
          getUserPlayedGames env n au ac 100 off = Inr page \<Longrightarrow>
          get_prop page ''titles'' = Inr (Some (JArr titles)) \<Longrightarrow>
          \<forall>t \<in> set titles. record_ok ''titleId'' ''imageUrl'' t"
    by blast
  from this run show "list_all shape_ok (games_of r)"
    by (rule fetchPSGames_shape)
next
  assume up: "\<forall>url headers r data titles.
        fetch env 1 url headers = Inr r \<longrightarrow> resp_json r = Inr data \<longrightarrow>
        get_prop data ''titles'' = Inr (Some (JArr titles)) \<longrightarrow>
        (\<forall>t \<in> set titles. record_ok ''titleId'' ''displayImage'' t)"
    and run: "status (fst (fetchXboxGames env q)) = 200"
  from up have "\<And>url headers r data titles.
          fetch env 1 url headers = Inr r \<Longrightarrow> resp_json r = Inr data \<Longrightarrow>
          get_prop data ''titles'' = Inr (Some (JArr titles)) \<Longrightarrow>
          \<forall>t \<in> set titles. record_ok ''titleId'' ''displayImage'' t"
    by blast
  from this run show "list_all shape_ok (games_of (fst (fetchXboxGames env q)))"
    by (rule fetchXboxGames_shape)
next
  assume up: "\<forall>url r gamesData gamesResponse games.
        fetch env 1 url [] = Inr r \<longrightarrow> resp_json r = Inr gamesData \<longrightarrow>
        get_prop gamesData ''response'' = Inr gamesResponse \<longrightarrow>
        get_prop gamesResponse ''games'' = Inr (Some (JArr games)) \<longrightarrow>
        (\<forall>g \<in> set games. nonempty (own_prop g ''appid'') \<and> nonempty (own_prop g ''name''))"
    and "status (fst (fetchSteamGames env q)) = 200"
  then obtain url r gamesData gamesResponse games simplifiedGames
    where a: "fetch env 1 url [] = Inr r" "resp_json r = Inr gamesData"
    "get_prop gamesData ''response'' = Inr gamesResponse"
    "get_prop gamesResponse ''games'' = Inr (Some (JArr games))"
    "map_exn (\<lambda>x. simplified_game (Some x)) games = Inr simplifiedGames"
    "fst (fetchSteamGames env q) =
       \<lparr>status = 200, body = Json (Some (JObj [(''games'', JArr simplifiedGames)]))\<rparr>"
    by (auto elim: fetchSteamGames_200)
  from up a(1-4)
  have "\<forall>g \<in> set games. nonempty (own_prop g ''appid'') \<and> nonempty (own_prop g ''name'')"
    by blast
  then have "list_all shape_ok simplifiedGames"
    by (intro map_exn_list_all[OF a(5)]) (auto intro: simplified_game_shape)
  with a(6) show "list_all shape_ok (games_of (fst (fetchSteamGames env q)))"
    by (simp add: games_of_def)
next
  assume "status (fst (fetchSteamGames env q)) = 200"
  then show "list_all (\<lambda>g. own_prop g ''logo'' = None) (games_of (fst (fetchSteamGames env q)))"
    by (rule fetchSteamGames_no_logo)
qed

theorem normalized_games_mirror_upstream_witness:
  "fetchPSGames psn_stub [(''username'', JStr ''player'')] =
     Some (psn_response,
           psn_calls @ [GetUserPlayedGames psn_auth (Some (JStr ''acc-1'')) 100 (JNum 0),
                        GetUserPlayedGames psn_auth (Some (JStr ''acc-1'')) 100 (JNum 100)])
   \<and> status psn_response = 200
   \<and> list_all shape_ok (games_of psn_response)
   \<and> status (fst (fetchXboxGames xbox_stub [(''username'', JStr ''player'')])) = 200
   \<and> list_all shape_ok (games_of (fst (fetchXboxGames xbox_stub [(''username'', JStr ''player'')])))
   \<and> status (fst (fetchSteamGames steam_stub [(''vanityurl'', JStr ''exampleuser'')])) = 200
   \<and> list_all shape_ok (games_of (fst (fetchSteamGames steam_stub [(''vanityurl'', JStr ''exampleuser'')])))
   \<and> list_all (\<lambda>g. own_prop g ''logo'' = None)
        (games_of (fst (fetchSteamGames steam_stub [(''vanityurl'', JStr ''exampleuser'')])))"
proof -
  let ?qp = "[(''username'', JStr ''player'')]"
  let ?qs = "[(''vanityurl'', JStr ''exampleuser'')]"
  have ps200: "status psn_response = 200" by (simp add: psn_response_def)
  have ps: "list_all shape_ok (games_of psn_response)"
  proof -
    have "\<forall>n au ac off page titles.
        getUserPlayedGames psn_stub n au ac 100 off = Inr page \<longrightarrow>
        get_prop page ''titles'' = Inr (Some (JArr titles)) \<longrightarrow>
        (\<forall>t \<in> set titles. record_ok ''titleId'' ''imageUrl'' t)"
      by (auto simp: psn_stub_def stub_env_def page_one_def page_two_def record_ok_def
               split: if_splits)
    with normalized_games_mirror_upstream[of psn_stub ?qp] psn_stub_run ps200
    show ?thesis by blast
  qed
  have xbox200: "status (fst (fetchXboxGames xbox_stub ?qp)) = 200"
    by (simp add: fetchXboxGames_def xbox_stub_def stub_env_def http_ok_def ok_def Let_def
        xbox_person_def xbox_titles_def to_string_def trim_plain xbox_game_def obj_def send_json_def)
  have xbox: "list_all shape_ok (games_of (fst (fetchXboxGames xbox_stub ?qp)))"
  proof -
    have "\<forall>url headers r data titles.
        fetch xbox_stub 1 url headers = Inr r \<longrightarrow> resp_json r = Inr data \<longrightarrow>
        get_prop data ''titles'' = Inr (Some (JArr titles)) \<longrightarrow>
        (\<forall>t \<in> set titles. record_ok ''titleId'' ''displayImage'' t)"
      by (auto simp: xbox_stub_def stub_env_def http_ok_def xbox_titles_def record_ok_def)
    with normalized_games_mirror_upstream[of xbox_stub ?qp] xbox200
    show ?thesis by blast
  qed
  have steam200: "status (fst (fetchSteamGames steam_stub ?qs)) = 200"
    by (simp add: fetchSteamGames_def steam_stub_def stub_env_def http_ok_def
        ok_def Let_def steam_vanity_found_def steam_owned_games_def simplified_game_def obj_def
        send_json_def)
  have steam: "list_all shape_ok (games_of (fst (fetchSteamGames steam_stub ?qs)))"
  proof -
    have "\<forall>url r gamesData gamesResponse games.
        fetch steam_stub 1 url [] = Inr r \<longrightarrow> resp_json r = Inr gamesData \<longrightarrow>
        get_prop gamesData ''response'' = Inr gamesResponse \<longrightarrow>
        get_prop gamesResponse ''games'' = Inr (Some (JArr games)) \<longrightarrow>
        (\<forall>g \<in> set games. nonempty (own_prop g ''appid'') \<and> nonempty (own_prop g ''name''))"
      by (auto simp: steam_stub_def stub_env_def http_ok_def steam_owned_games_def)
    with normalized_games_mirror_upstream[of steam_stub ?qs] steam200
    show ?thesis by blast
  qed
  have nologo: "list_all (\<lambda>g. own_prop g ''logo'' = None) (games_of (fst (fetchSteamGames steam_stub ?qs)))"
    using normalized_games_mirror_upstream[of steam_stub ?qs] steam200 by blast
  from psn_stub_run ps200 ps xbox200 xbox steam200 steam nologo show ?thesis
    by blast
qed

subsection \<open>The two versions of the vanity-name resolver\<close>

text \<open>
  C10, as stated, fails. On the specification's own end-to-end example both versions
  answer 200, and the bodies differ: the handler of index.ts sends the upstream
  \<open>response\<close> object whole (with its \<open>game_count\<close> and every field of every record),
  the handler of part_000 sends \<open>{games: [...]}\<close> with records of \<open>appid\<close> and
  \<open>name\<close> only.
\<close>

theorem steam_versions_counterexample:
  "status (fst (fetchSteamGames steam_stub [(''vanityurl'', JStr ''exampleuser'')])) = 200
   \<and> status (fst (fetchSteamGames_index steam_stub [(''vanityurl'', JStr ''exampleuser'')])) = 200
   \<and> body (fst (fetchSteamGames steam_stub [(''vanityurl'', JStr ''exampleuser'')]))
       \<noteq> body (fst (fetchSteamGames_index steam_stub [(''vanityurl'', JStr ''exampleuser'')]))"
  by (simp add: fetchSteamGames_def fetchSteamGames_index_def steam_stub_def stub_env_def http_ok_def
        ok_def Let_def steam_vanity_found_def steam_owned_games_def simplified_game_def obj_def
        send_json_def)

text \<open>
  C10, amended. On every input on which both versions answer 200, both have made the
  same two upstream calls; the body of the index.ts version is the \<open>response\<close> object
  of the second upstream body, unchanged, and that object holds a \<open>games\<close> list; the
  body of the part_000 version is \<open>{games: [...]}\<close> holding that same list with every
  record cut down to its \<open>appid\<close> and \<open>name\<close>.
\<close>

theorem steam_versions_related:
  assumes "status (fst (fetchSteamGames env q)) = 200"
    and "status (fst (fetchSteamGames_index env q)) = 200"
  shows "\<exists>r1 data resp steamID r2 gamesData fields games.
           fetch env 0 (steam_vanity_url (STEAM_API env) (map_of q ''vanityurl'')) [] = Inr r1
         \<and> resp_json r1 = Inr data
         \<and> get_prop data ''response'' = Inr resp
         \<and> get_prop resp ''steamid'' = Inr steamID
         \<and> fetch env 1 (steam_games_url (STEAM_API env) steamID) [] = Inr r2
         \<and> resp_json r2 = Inr gamesData
         \<and> get_prop gamesData ''response'' = Inr (Some (JObj fields))
         \<and> map_of fields ''games'' = Some (JArr games)
         \<and> body (fst (fetchSteamGames_index env q)) = Json (Some (JObj fields))
         \<and> body (fst (fetchSteamGames env q)) =
              Json (Some (JObj [(''games'', JArr (map appid_name games))]))
         \<and> snd (fetchSteamGames_index env q) =
              [Fetch (steam_vanity_url (STEAM_API env) (map_of q ''vanityurl'')) [],
               Fetch (steam_games_url (STEAM_API env) steamID) []]
         \<and> snd (fetchSteamGames env q) =
              [Fetch (steam_vanity_url (STEAM_API env) (map_of q ''vanityurl'')) [],
               Fetch (steam_games_url (STEAM_API env) steamID) []]"
proof -
  have ok_200: "\<And>r. \<not> ok r \<Longrightarrow> resp_status r \<noteq> 200" by (auto simp: ok_def)
  from assms obtain r1 data resp steamID r2 gamesData gamesResponse gv simplifiedGames
    where a: "fetch env 0 (steam_vanity_url (STEAM_API env) (map_of q ''vanityurl'')) [] = Inr r1"
      "resp_json r1 = Inr data"
      "get_prop data ''response'' = Inr resp"
      "get_prop resp ''steamid'' = Inr steamID"
      "fetch env 1 (steam_games_url (STEAM_API env) steamID) [] = Inr r2"
      "resp_json r2 = Inr gamesData"
      "get_prop gamesData ''response'' = Inr gamesResponse"
      "get_prop gamesResponse ''games'' = Inr gv"
      "array_map simplified_game gv = Inr simplifiedGames"
      "body (fst (fetchSteamGames env q)) = Json (Some (JObj [(''games'', JArr simplifiedGames)]))"
      "body (fst (fetchSteamGames_index env q)) = Json gamesResponse"
      "snd (fetchSteamGames_index env q) =
              [Fetch (steam_vanity_url (STEAM_API env) (map_of q ''vanityurl'')) [],
               Fetch (steam_games_url (STEAM_API env) steamID) []]"
      "snd (fetchSteamGames env q) =
              [Fetch (steam_vanity_url (STEAM_API env) (map_of q ''vanityurl'')) [],
               Fetch (steam_games_url (STEAM_API env) steamID) []]"
    by (auto simp: fetchSteamGames_def fetchSteamGames_index_def Let_def send_def send_json_def
             obj_def bind_exn_def dest: ok_200 split: sum.splits if_splits)
  from a(9) obtain games where games: "gv = Some (JArr games)"
    "map_exn (\<lambda>x. simplified_game (Some x)) games = Inr simplifiedGames"
    by (rule array_map_Inr)
  from a(8)[unfolded games(1)] obtain fields
    where f: "gamesResponse = Some (JObj fields)" "map_of fields ''games'' = Some (JArr games)"
    by (rule get_prop_Some)
  from map_exn_simplified[OF games(2)] have "simplifiedGames = map appid_name games" .
  with a f show ?thesis by blast
qed

theorem steam_versions_related_witness:
  "status (fst (fetchSteamGames steam_stub [(''vanityurl'', JStr ''exampleuser'')])) = 200
   \<and> status (fst (fetchSteamGames_index steam_stub [(''vanityurl'', JStr ''exampleuser'')])) = 200
   \<and> body (fst (fetchSteamGames_index steam_stub [(''vanityurl'', JStr ''exampleuser'')])) =
       Json (Some (JObj [(''game_count'', JNum 2),
          (''games'', JArr [JObj [(''appid'', JNum 10), (''name'', JStr ''Game A''), (''playtime_forever'', JNum 120)],
                            JObj [(''appid'', JNum 20), (''name'', JStr ''Game B''), (''img_icon_url'', JStr ''abc'')]])]))
   \<and> body (fst (fetchSteamGames steam_stub [(''vanityurl'', JStr ''exampleuser'')])) =
       Json (Some (JObj [(''games'', JArr [JObj [(''appid'', JNum 10), (''name'', JStr ''Game A'')],
                                           JObj [(''appid'', JNum 20), (''name'', JStr ''Game B'')]])]))"
proof -
  have s1: "status (fst (fetchSteamGames steam_stub [(''vanityurl'', JStr ''exampleuser'')])) = 200"
    by (simp add: fetchSteamGames_def steam_stub_def stub_env_def http_ok_def
        ok_def Let_def steam_vanity_found_def steam_owned_games_def simplified_game_def obj_def
        send_json_def)
  have s2: "status (fst (fetchSteamGames_index steam_stub [(''vanityurl'', JStr ''exampleuser'')])) = 200"
    by (simp add: fetchSteamGames_index_def steam_stub_def stub_env_def http_ok_def
        ok_def Let_def steam_vanity_found_def steam_owned_games_def send_json_def)
  from steam_versions_related[OF s1 s2] s1 s2 show ?thesis
    by (auto simp: steam_stub_def stub_env_def http_ok_def steam_owned_games_def appid_name_def obj_def)
qed

end
